theory Spec2Isabelle
  imports Main
begin

section \<open>Strings\<close>

text \<open>
  A string is a list of code units, here the 8-bit characters of \<^typ>\<open>string\<close>. The
  operations below are the ones the source calls on JavaScript strings:
  \<^verbatim>\<open>includes\<close>, \<^verbatim>\<open>split\<close> (with a one-character separator), \<^verbatim>\<open>trim\<close> and
  \<^verbatim>\<open>replace\<close> with the global patterns \<^verbatim>\<open>/\*\*/g\<close> and \<^verbatim>\<open>/\[|\]/g\<close>.
\<close>

text \<open>The white space and line terminators that \<^verbatim>\<open>trim\<close> removes, among the 8-bit
  code units: TAB, LF, VT, FF, CR, SPACE and NBSP.\<close>

definition isWhiteSpace :: "char \<Rightarrow> bool" where
  "isWhiteSpace c =
     (c = CHR 0x09 \<or> c = CHR 0x0A \<or> c = CHR 0x0B \<or> c = CHR 0x0C \<or> c = CHR 0x0D
      \<or> c = CHR 0x20 \<or> c = CHR 0xA0)"

definition trim :: "string \<Rightarrow> string" where
  "trim s = rev (dropWhile isWhiteSpace (rev (dropWhile isWhiteSpace s)))"

fun startsWith :: "string \<Rightarrow> string \<Rightarrow> bool" where
  "startsWith s [] = True"
| "startsWith [] (p # ps) = False"
| "startsWith (c # cs) (p # ps) = (c = p \<and> startsWith cs ps)"

text \<open>\<^verbatim>\<open>s.includes(sub)\<close>: \<open>sub\<close> occurs in \<open>s\<close> as a contiguous block.\<close>

fun includes_str :: "string \<Rightarrow> string \<Rightarrow> bool" where
  "includes_str [] sub = (sub = [])"
| "includes_str (c # cs) sub = (startsWith (c # cs) sub \<or> includes_str cs sub)"

text \<open>\<^verbatim>\<open>s.split(sep)\<close> for a one-character separator: one more piece than there are
  separators, so the empty string splits into one empty piece. \<open>splitFrom\<close> scans the
  string once, holding the piece it is reading (reversed) in \<open>piece\<close>.\<close>

fun splitFrom :: "char \<Rightarrow> string \<Rightarrow> string \<Rightarrow> string list" where
  "splitFrom sep piece [] = [rev piece]"
| "splitFrom sep piece (c # cs) =
     (if c = sep then rev piece # splitFrom sep [] cs else splitFrom sep (c # piece) cs)"

definition split_str :: "char \<Rightarrow> string \<Rightarrow> string list" where
  "split_str sep s = splitFrom sep [] s"

text \<open>\<^verbatim>\<open>s.replace(/\*\*/g, '')\<close>: every match of two stars, found left to right without
  overlap, is removed.\<close>

fun replaceBold :: "string \<Rightarrow> string" where
  "replaceBold (a # b # rest) =
     (if a = CHR ''*'' \<and> b = CHR ''*'' then replaceBold rest else a # replaceBold (b # rest))"
| "replaceBold [a] = [a]"
| "replaceBold [] = []"

text \<open>\<^verbatim>\<open>s.replace(/\[|\]/g, '')\<close>: every square bracket is removed.\<close>

definition replaceBrackets :: "string \<Rightarrow> string" where
  "replaceBrackets s = filter (\<lambda>c. c \<noteq> CHR ''['' \<and> c \<noteq> CHR '']'') s"

section \<open>Prompt extractor (App.tsx, \<^verbatim>\<open>extractPrompts\<close>)\<close>

definition headerMarker :: string where
  "headerMarker = ''| VARIATION | IMAGE PROMPT |''"

text \<open>
  The body of the \<^verbatim>\<open>for (const line of lines)\<close> loop, on the two variables it
  updates: \<open>inTable\<close> and \<open>prompts\<close>. A header line sets \<open>inTable\<close> and goes on to the
  next line (\<^verbatim>\<open>continue\<close>); any other line may add a prompt, and then may leave the
  table.
\<close>

fun extractLoop :: "string list \<Rightarrow> bool \<Rightarrow> string list \<Rightarrow> string list" where
  "extractLoop [] inTable prompts = prompts"
| "extractLoop (line # rest) inTable prompts =
     (if includes_str line headerMarker then extractLoop rest True prompts
      else
        let prompts1 =
              (if inTable \<and> includes_str line ''|'' then
                 (let columns = split_str CHR ''|'' line in
                  if length columns \<ge> 3 then
                    (let prompt = trim (columns ! 2) in
                     if prompt \<noteq> [] \<and> \<not> includes_str prompt ''---''
                        \<and> \<not> includes_str prompt ''IMAGE PROMPT''
                     then prompts @ [replaceBold prompt]
                     else prompts)
                  else prompts)
               else prompts);
            inTable1 =
              (if inTable \<and> trim line = [] \<and> length prompts1 > 0 then False else inTable)
        in extractLoop rest inTable1 prompts1)"

definition extractPrompts :: "string \<Rightarrow> string list" where
  "extractPrompts markdown = take 6 (extractLoop (split_str CHR 0x0A markdown) False [])"

section \<open>Data model (types.ts)\<close>

datatype ImageSize = Size_1K | Size_2K | Size_4K

datatype AspectRatio =
  Ratio_1_1 | Ratio_2_3 | Ratio_3_2 | Ratio_3_4 | Ratio_4_3 | Ratio_9_16 | Ratio_16_9 | Ratio_21_9

record GeneratedAsset =
  url :: string
  prompt :: string

section \<open>The remote generation service and the observable effects\<close>

text \<open>
  What a rejected call throws: the two properties the retry executor reads,
  \<^verbatim>\<open>error?.status\<close> (absent, or a number) and \<^verbatim>\<open>error?.message || ""\<close>.
\<close>

record js_error =
  status :: "int option"
  message :: string

text \<open>A content part: a text, or inline data with its MIME type; the \<^verbatim>\<open>data\<close>
  property is \<open>None\<close> where it is \<^verbatim>\<open>undefined\<close>.\<close>

datatype part = TextPart string | InlineData string "string option"

text \<open>
  The system instruction is the template of \<^verbatim>\<open>getSystemInstruction\<close>. Its text is
  fixed but for three places, which are filled in by the two tests
  \<^verbatim>\<open>productType === 'TSHIRT'\<close> (the visual rule and the product named in the
  description) and \<^verbatim>\<open>productType === 'INVITATION'\<close> (the card template block). No
  operation below reads the text, so an instruction is given by the outcomes of these
  two tests: product types that agree on both get the same instruction.
\<close>

datatype instruction = SystemInstruction bool bool

definition getSystemInstruction :: "string \<Rightarrow> instruction" where
  "getSystemInstruction productType =
     SystemInstruction (productType = ''TSHIRT'') (productType = ''INVITATION'')"

record imageConfig =
  aspectRatio :: AspectRatio
  imageSize :: "ImageSize option"

record config =
  systemInstruction :: "instruction option"
  temperature :: "int option"
  thinkingBudget :: "int option"
  imageConfig :: "imageConfig option"

record request =
  model :: string
  contents :: "part list"
  config :: config

text \<open>A response: its \<^verbatim>\<open>text\<close> property and
  \<^verbatim>\<open>candidates?.[0]?.content?.parts\<close>, each \<open>None\<close> where it is undefined.\<close>

record response =
  responseText :: "string option"
  candidateParts :: "part list option"

text \<open>
  Every effect the service functions have is recorded, in order, in a trace: an
  invocation of an operation under retry, a remote \<^verbatim>\<open>generateContent\<close> call with its
  request and its outcome, an elapsed \<^verbatim>\<open>sleep\<close>, a console message, and the two
  callbacks of the user interface.
\<close>

datatype event =
    Invoked
  | RemoteCall request "js_error + response"
  | Slept int
  | ConsoleWarn nat int
  | ConsoleError string js_error
  | CooldownMessage string
  | AssetReady GeneratedAsset

record world =
  calls :: nat
  trace :: "event list"

definition emit :: "event \<Rightarrow> world \<Rightarrow> world" where
  "emit ev w = w\<lparr>trace := trace w @ [ev]\<rparr>"

definition sleep :: "int \<Rightarrow> world \<Rightarrow> world" where
  "sleep ms w = emit (Slept ms) w"

text \<open>The remote service answers its \<open>n\<close>-th call (counted from 0 over the whole run)
  for a request either with an error or with a response.\<close>

type_synonym remote = "nat \<Rightarrow> request \<Rightarrow> js_error + response"

text \<open>\<^verbatim>\<open>() => getAIClient().models.generateContent(request)\<close>\<close>

definition generateContent :: "remote \<Rightarrow> request \<Rightarrow> world \<Rightarrow> (js_error + response) \<times> world" where
  "generateContent remote req w =
     (let outcome = remote (calls w) req
      in (outcome, emit (RemoteCall req outcome) (w\<lparr>calls := Suc (calls w)\<rparr>)))"

text \<open>An arbitrary operation \<^verbatim>\<open>fn\<close> whose \<open>n\<close>-th invocation ends as \<open>outcomes n\<close>.\<close>

definition operation :: "(nat \<Rightarrow> js_error + 'a) \<Rightarrow> world \<Rightarrow> (js_error + 'a) \<times> world" where
  "operation outcomes w = (outcomes (calls w), emit Invoked (w\<lparr>calls := Suc (calls w)\<rparr>))"

text \<open>The callbacks of the user interface, as the effects they are observed by.\<close>

definition notifyCooldown :: "string \<Rightarrow> world \<Rightarrow> world" where
  "notifyCooldown msg w = emit (CooldownMessage msg) w"

definition notifyAsset :: "GeneratedAsset \<Rightarrow> world \<Rightarrow> world" where
  "notifyAsset asset w = emit (AssetReady asset) w"

definition initialWorld :: world where
  "initialWorld = \<lparr>calls = 0, trace = []\<rparr>"

section \<open>Retry executor (\<^verbatim>\<open>withRetry\<close>)\<close>

definition isQuotaError :: "js_error \<Rightarrow> bool" where
  "isQuotaError error =
     (status error = Some 429 \<or> includes_str (message error) ''429''
      \<or> includes_str (message error) ''RESOURCE_EXHAUSTED''
      \<or> includes_str (message error) ''quota'')"

definition maximumRetriesError :: js_error where
  "maximumRetriesError =
     \<lparr>status = None, message = ''Maximum retries reached due to API quota limits.''\<rparr>"

text \<open>
  The \<^verbatim>\<open>for (let i = 0; i < retries; i++)\<close> loop with its two variables \<open>i\<close> and
  \<open>currentDelay\<close>. \<open>Inr\<close> is the value \<^verbatim>\<open>fn\<close> resolved with, \<open>Inl\<close> what is thrown
  to the caller. \<open>retries\<close> is an integer, so that a call with no attempt to make
  (\<open>retries \<le> 0\<close>) is covered. Delays are whole milliseconds; doubling them is exact
  in the source's floating-point numbers as well.
\<close>

function withRetryLoop ::
  "(world \<Rightarrow> (js_error + 'a) \<times> world) \<Rightarrow> int \<Rightarrow> (string \<Rightarrow> world \<Rightarrow> world) option
     \<Rightarrow> nat \<Rightarrow> int \<Rightarrow> world \<Rightarrow> (js_error + 'a) \<times> world" where
  "withRetryLoop fn retries onRetry i currentDelay w =
     (if int i < retries then
        (case fn w of
           (Inr v, w1) \<Rightarrow> (Inr v, w1)
         | (Inl error, w1) \<Rightarrow>
             (let isQuota = isQuotaError error in
              if int i < retries - 1 \<and> (isQuota \<or> status error = Some 500) then
                (let waitTime = (if isQuota then 75000 else currentDelay);
                     w2 = (case onRetry of
                             None \<Rightarrow> w1
                           | Some callback \<Rightarrow>
                               callback (if isQuota then ''Rate limit hit. Cooling down for 75s...''
                                         else ''Server busy. Retrying...'') w1);
                     w3 = emit (ConsoleWarn (i + 1) waitTime) w2;
                     w4 = sleep waitTime w3
                 in withRetryLoop fn retries onRetry (Suc i) (currentDelay * 2) w4)
              else (Inl error, w1)))
      else (Inl maximumRetriesError, w))"
  by pat_completeness auto
termination
  by (relation "measure (\<lambda>(fn, retries, onRetry, i, currentDelay, w). nat (retries - int i))") auto

definition withRetry ::
  "(world \<Rightarrow> (js_error + 'a) \<times> world) \<Rightarrow> int \<Rightarrow> int \<Rightarrow> (string \<Rightarrow> world \<Rightarrow> world) option
     \<Rightarrow> world \<Rightarrow> (js_error + 'a) \<times> world" where
  "withRetry fn retries initialDelay onRetry w = withRetryLoop fn retries onRetry 0 initialDelay w"

section \<open>Kit generator (\<^verbatim>\<open>generateKit\<close>)\<close>

record kitOptions =
  imageBase64 :: "string option"
  thinkingMode :: bool
  fastMode :: bool

text \<open>\<^verbatim>\<open>s.split(',')[1]\<close>: the second piece, undefined when there is no comma.\<close>

definition base64Payload :: "string \<Rightarrow> string option" where
  "base64Payload s =
     (let pieces = split_str CHR '','' s in if length pieces > 1 then Some (pieces ! 1) else None)"

definition kitParts :: "string \<Rightarrow> string \<Rightarrow> kitOptions \<Rightarrow> part list" where
  "kitParts input productType options =
     [TextPart (''User Input: '' @ input @ [CHR 0x0A] @ ''Product Type: '' @ productType)]
     @ (case imageBase64 options of
          None \<Rightarrow> []
        | Some imageData \<Rightarrow>
            if imageData = [] then [] else [InlineData ''image/jpeg'' (base64Payload imageData)])"

definition kitModel :: "kitOptions \<Rightarrow> string" where
  "kitModel options =
     (if thinkingMode options then ''gemini-3-pro-preview''
      else if fastMode options then ''gemini-flash-lite-latest''
      else ''gemini-3-flash-preview'')"

definition kitConfig :: "string \<Rightarrow> kitOptions \<Rightarrow> config" where
  "kitConfig productType options =
     \<lparr>systemInstruction = Some (getSystemInstruction productType),
      temperature = Some 1,
      thinkingBudget = (if thinkingMode options then Some 32768 else None),
      imageConfig = None\<rparr>"

definition kitRequest :: "string \<Rightarrow> string \<Rightarrow> kitOptions \<Rightarrow> request" where
  "kitRequest input productType options =
     \<lparr>model = kitModel options,
      contents = kitParts input productType options,
      config = kitConfig productType options\<rparr>"

definition kitFallback :: string where
  "kitFallback = ''Error generating the kit content.''"

text \<open>\<^verbatim>\<open>response.text || "Error generating the kit content."\<close>: the fallback stands in for
  an undefined and for an empty text.\<close>

definition generateKit ::
  "remote \<Rightarrow> string \<Rightarrow> string \<Rightarrow> kitOptions \<Rightarrow> world \<Rightarrow> (js_error + string) \<times> world" where
  "generateKit remote input productType options w =
     (case withRetry (generateContent remote (kitRequest input productType options)) 3 5000 None w of
        (Inl error, w1) \<Rightarrow> (Inl error, w1)
      | (Inr response, w1) \<Rightarrow>
          (Inr (case responseText response of
                  None \<Rightarrow> kitFallback
                | Some t \<Rightarrow> if t = [] then kitFallback else t), w1))"

section \<open>Image editor (\<^verbatim>\<open>editImageWithGemini\<close>)\<close>

fun showNat :: "nat \<Rightarrow> string" where
  "showNat n =
     (if n < 10 then [char_of (48 + n)] else showNat (n div 10) @ [char_of (48 + n mod 10)])"

text \<open>The first part that carries inline data, as the \<^verbatim>\<open>for ... break\<close> loop over the
  parts finds it: \<open>Some\<close> of its \<^verbatim>\<open>data\<close>, or \<open>None\<close> when no part carries any.\<close>

fun firstInlineData :: "part list \<Rightarrow> string option option" where
  "firstInlineData [] = None"
| "firstInlineData (TextPart t # parts) = firstInlineData parts"
| "firstInlineData (InlineData mimeType d # parts) = Some d"

text \<open>\<^verbatim>\<open>`data:image/png;base64,${part.inlineData.data}`\<close>\<close>

definition dataUrl :: "string option \<Rightarrow> string" where
  "dataUrl d = ''data:image/png;base64,'' @ (case d of None \<Rightarrow> ''undefined'' | Some b \<Rightarrow> b)"

text \<open>What the response contributes: the inline data of the first image part of
  \<^verbatim>\<open>response.candidates?.[0]?.content?.parts\<close>, if there is one.\<close>

definition responseImage :: "response \<Rightarrow> string option option" where
  "responseImage response =
     (case candidateParts response of None \<Rightarrow> None | Some parts \<Rightarrow> firstInlineData parts)"

definition editRequest :: "string \<Rightarrow> string \<Rightarrow> nat \<Rightarrow> request" where
  "editRequest imageData instruction i =
     \<lparr>model = ''gemini-2.5-flash-image'',
      contents =
        [InlineData ''image/jpeg'' (base64Payload imageData),
         TextPart (instruction @ ''. Variation '' @ showNat (i + 1)
                   @ ''. Ensure output is PNG format.'')],
      config =
        \<lparr>systemInstruction = None, temperature = None, thinkingBudget = None,
         imageConfig = Some \<lparr>aspectRatio = Ratio_1_1, imageSize = None\<rparr>\<rparr>\<rparr>"

text \<open>
  The \<^verbatim>\<open>for (let i = 0; i < 6; i++)\<close> loop. The \<^verbatim>\<open>try\<close> block holds the call, the
  push of the result and the \<^verbatim>\<open>sleep(45000)\<close>; the \<^verbatim>\<open>catch\<close> block only logs.
\<close>

function editLoop ::
  "remote \<Rightarrow> string \<Rightarrow> string \<Rightarrow> nat \<Rightarrow> GeneratedAsset list \<Rightarrow> world
     \<Rightarrow> GeneratedAsset list \<times> world" where
  "editLoop remote imageData instruction i results w =
     (if i < 6 then
        (case withRetry (generateContent remote (editRequest imageData instruction i)) 2 65000 None w of
           (Inr response, w1) \<Rightarrow>
             (let results1 =
                    (case responseImage response of
                       None \<Rightarrow> results
                     | Some d \<Rightarrow> results @ [\<lparr>url = dataUrl d, prompt = instruction\<rparr>]);
                  w2 = (if i < 5 then sleep 45000 w1 else w1)
              in editLoop remote imageData instruction (Suc i) results1 w2)
         | (Inl err, w1) \<Rightarrow>
             editLoop remote imageData instruction (Suc i) results
               (emit (ConsoleError ''Edit failed'' err) w1))
      else (results, w))"
  by pat_completeness auto
termination
  by (relation "measure (\<lambda>(remote, imageData, instruction, i, results, w). 6 - i)") auto

definition editImageWithGemini ::
  "remote \<Rightarrow> string \<Rightarrow> string \<Rightarrow> world \<Rightarrow> GeneratedAsset list \<times> world" where
  "editImageWithGemini remote imageData instruction w = editLoop remote imageData instruction 0 [] w"

section \<open>Image batch generator (\<^verbatim>\<open>generatePreviewImages\<close>)\<close>

record previewOptions =
  useHighQuality :: bool
  size_opt :: "ImageSize option"
  aspectRatio_opt :: "AspectRatio option"

definition cleanPrompt :: "string \<Rightarrow> string" where
  "cleanPrompt p = trim (replaceBrackets (replaceBold p))"

definition previewModel :: "previewOptions \<Rightarrow> string" where
  "previewModel options =
     (if useHighQuality options then ''gemini-3-pro-image-preview'' else ''gemini-2.5-flash-image'')"

definition previewRequest :: "previewOptions \<Rightarrow> string \<Rightarrow> request" where
  "previewRequest options p =
     \<lparr>model = previewModel options,
      contents = [TextPart (cleanPrompt p)],
      config =
        \<lparr>systemInstruction = None, temperature = None, thinkingBudget = None,
         imageConfig =
           Some \<lparr>aspectRatio = (case aspectRatio_opt options of None \<Rightarrow> Ratio_1_1 | Some r \<Rightarrow> r),
                 imageSize = (if useHighQuality options then size_opt options else None)\<rparr>\<rparr>\<rparr>"

text \<open>
  The \<^verbatim>\<open>for (let i = 0; i < prompts.length; i++)\<close> loop. The \<^verbatim>\<open>try\<close> block holds the
  call, the push and the \<^verbatim>\<open>onAssetReady\<close> callback; the \<^verbatim>\<open>sleep(45000)\<close> comes after
  the \<^verbatim>\<open>try ... catch\<close> statement.
\<close>

function previewLoop ::
  "remote \<Rightarrow> string list \<Rightarrow> previewOptions \<Rightarrow> (GeneratedAsset \<Rightarrow> world \<Rightarrow> world) option
     \<Rightarrow> (string \<Rightarrow> world \<Rightarrow> world) option \<Rightarrow> nat \<Rightarrow> GeneratedAsset list \<Rightarrow> world
     \<Rightarrow> GeneratedAsset list \<times> world" where
  "previewLoop remote prompts options onAssetReady onCooldownStart i results w =
     (if i < length prompts then
        (let (results1, w2) =
               (case withRetry (generateContent remote (previewRequest options (prompts ! i)))
                       2 65000 onCooldownStart w of
                  (Inr response, w1) \<Rightarrow>
                    (case responseImage response of
                       None \<Rightarrow> (results, w1)
                     | Some d \<Rightarrow>
                         (let asset = \<lparr>url = dataUrl d, prompt = cleanPrompt (prompts ! i)\<rparr>
                          in (results @ [asset],
                              (case onAssetReady of
                                 None \<Rightarrow> w1
                               | Some callback \<Rightarrow> callback asset w1))))
                | (Inl err, w1) \<Rightarrow>
                    (results,
                     emit (ConsoleError (''Skipping variation due to limit: '' @ prompts ! i) err)
                       w1));
             w3 = (if int i < int (length prompts) - 1 then sleep 45000 w2 else w2)
         in previewLoop remote prompts options onAssetReady onCooldownStart (Suc i) results1 w3)
      else (results, w))"
  by pat_completeness auto
termination
  by (relation "measure (\<lambda>(remote, prompts, options, onAssetReady, onCooldownStart, i, results, w).
                           length prompts - i)") auto

definition generatePreviewImages ::
  "remote \<Rightarrow> string list \<Rightarrow> previewOptions \<Rightarrow> (GeneratedAsset \<Rightarrow> world \<Rightarrow> world) option
     \<Rightarrow> (string \<Rightarrow> world \<Rightarrow> world) option \<Rightarrow> world \<Rightarrow> GeneratedAsset list \<times> world" where
  "generatePreviewImages remote prompts options onAssetReady onCooldownStart w =
     previewLoop remote prompts options onAssetReady onCooldownStart 0 [] w"

section \<open>Properties in the words of the specification\<close>

subsection \<open>Well-formed tables\<close>

text \<open>The candidate prompt of a table row: its third \<open>|\<close>-separated column, trimmed.\<close>

definition rowPrompt :: "string \<Rightarrow> string" where
  "rowPrompt line = trim (split_str CHR ''|'' line ! 2)"

text \<open>
  A data row is a line other than a header line that has at least three columns, and
  whose third column is a prompt: not empty, without the separator marker and without
  the header text.
\<close>

definition dataRow :: "string \<Rightarrow> bool" where
  "dataRow line =
     (\<not> includes_str line headerMarker \<and> length (split_str CHR ''|'' line) \<ge> 3
      \<and> rowPrompt line \<noteq> [] \<and> \<not> includes_str (rowPrompt line) ''---''
      \<and> \<not> includes_str (rowPrompt line) ''IMAGE PROMPT'')"

text \<open>The delimiter row of a markdown table, such as \<^verbatim>\<open>| :--- | :--- |\<close>.\<close>

definition delimiterRow :: "string \<Rightarrow> bool" where
  "delimiterRow line =
     (\<not> includes_str line headerMarker \<and> length (split_str CHR ''|'' line) \<ge> 3
      \<and> includes_str (rowPrompt line) ''---'')"

subsection \<open>Observations on a trace\<close>

text \<open>The delays that elapsed, in order.\<close>

definition delays :: "event list \<Rightarrow> int list" where
  "delays evs = concat (map (\<lambda>ev. case ev of Slept ms \<Rightarrow> [ms] | _ \<Rightarrow> []) evs)"

text \<open>The fixed delay between two calls of a batch is 45 seconds; the waits of the retry
  executor are 75 seconds, or 65 seconds doubled some number of times.\<close>

definition interCallDelays :: "event list \<Rightarrow> int list" where
  "interCallDelays evs = filter (\<lambda>ms. ms = 45000) (delays evs)"

text \<open>The messages the cooldown callback was invoked with, in order.\<close>

definition cooldownMessages :: "event list \<Rightarrow> string list" where
  "cooldownMessages evs =
     concat (map (\<lambda>ev. case ev of CooldownMessage msg \<Rightarrow> [msg] | _ \<Rightarrow> []) evs)"

text \<open>The assets \<^verbatim>\<open>onAssetReady\<close> was invoked with, in order.\<close>

definition assetsReady :: "event list \<Rightarrow> GeneratedAsset list" where
  "assetsReady evs = concat (map (\<lambda>ev. case ev of AssetReady asset \<Rightarrow> [asset] | _ \<Rightarrow> []) evs)"

text \<open>How often the operation under retry was invoked.\<close>

definition invocations :: "event list \<Rightarrow> nat" where
  "invocations evs = length (filter (\<lambda>ev. ev = Invoked) evs)"

text \<open>The invocations of the operation under retry and the delays, in the order in which
  they occurred.\<close>

definition schedule :: "event list \<Rightarrow> event list" where
  "schedule evs =
     filter (\<lambda>ev. case ev of Invoked \<Rightarrow> True | Slept ms \<Rightarrow> True | _ \<Rightarrow> False) evs"

text \<open>The requests of the remote calls, in order, and the outcomes of the remote calls.\<close>

definition calledRequests :: "event list \<Rightarrow> request list" where
  "calledRequests evs = concat (map (\<lambda>ev. case ev of RemoteCall req out \<Rightarrow> [req] | _ \<Rightarrow> []) evs)"

definition callOutcomes :: "event list \<Rightarrow> (js_error + response) list" where
  "callOutcomes evs = concat (map (\<lambda>ev. case ev of RemoteCall req out \<Rightarrow> [out] | _ \<Rightarrow> []) evs)"

text \<open>A remote call succeeded when it returned a response; it produced an image when
  that response carries an inline-image part.\<close>

definition succeeded :: "js_error + response \<Rightarrow> bool" where
  "succeeded out = (case out of Inl error \<Rightarrow> False | Inr response \<Rightarrow> True)"

definition producedImage :: "js_error + response \<Rightarrow> bool" where
  "producedImage out =
     (case out of Inl error \<Rightarrow> False | Inr response \<Rightarrow> responseImage response \<noteq> None)"

text \<open>The retry executor tries again after a quota signal and after a server signal.\<close>

definition isServerError :: "js_error \<Rightarrow> bool" where
  "isServerError error = (\<not> isQuotaError error \<and> status error = Some 500)"

text \<open>What a prompt contributes to the batch, given the outcome of its remote call.\<close>

definition assetFor :: "string \<Rightarrow> js_error + response \<Rightarrow> GeneratedAsset list" where
  "assetFor p out =
     (case out of
        Inl error \<Rightarrow> []
      | Inr response \<Rightarrow>
          (case responseImage response of
             None \<Rightarrow> []
           | Some d \<Rightarrow> [\<lparr>url = dataUrl d, prompt = cleanPrompt p\<rparr>]))"

subsection \<open>Example services\<close>

text \<open>A service that answers every call with a response without an image; one that
  rejects every call with a client error; one that fails the calls for the prompt
  \<open>two\<close> and answers all others with an image.\<close>

definition imagelessRemote :: remote where
  "imagelessRemote n req = Inr \<lparr>responseText = Some ''Done.'', candidateParts = Some [TextPart ''Done.'']\<rparr>"

definition secondPromptFails :: remote where
  "secondPromptFails n req =
     (if contents req = [TextPart ''two'']
      then Inl \<lparr>status = Some 500, message = ''Internal error''\<rparr>
      else Inr \<lparr>responseText = None,
                candidateParts = Some [InlineData ''image/png'' (Some ''AAAA'')]\<rparr>)"

definition standardOptions :: previewOptions where
  "standardOptions = \<lparr>useHighQuality = False, size_opt = None, aspectRatio_opt = None\<rparr>"

definition rejectingRemote :: remote where
  "rejectingRemote n req = Inl \<lparr>status = Some 400, message = ''Bad Request''\<rparr>"

section \<open>The prompt extractor on well-formed tables\<close>

lemma startsWith_single: "startsWith s [c] = (s \<noteq> [] \<and> hd s = c)"
  by (cases s) auto

lemma includes_str_single: "includes_str s [c] = (c \<in> set s)"
  by (induction s) (auto simp: startsWith_single)

lemma length_splitFrom: "length (splitFrom sep piece s) = Suc (length (filter (\<lambda>c. c = sep) s))"
  by (induction s arbitrary: piece) auto

lemma split_str_mem: "length (split_str sep s) \<ge> 2 \<Longrightarrow> sep \<in> set s"
proof -
  assume "length (split_str sep s) \<ge> 2"
  then have "filter (\<lambda>c. c = sep) s \<noteq> []"
    by (auto simp: split_str_def length_splitFrom)
  then show ?thesis
    by (metis (mono_tags, lifting) filter_False)
qed

lemma trim_eq_Nil: "(trim s = []) = (\<forall>c \<in> set s. isWhiteSpace c)"
proof
  assume "trim s = []"
  then have a: "\<forall>c \<in> set (dropWhile isWhiteSpace s). isWhiteSpace c"
    by (simp add: trim_def dropWhile_eq_Nil_conv)
  have "dropWhile isWhiteSpace s = []"
  proof (rule ccontr)
    assume n: "dropWhile isWhiteSpace s \<noteq> []"
    then have "\<not> isWhiteSpace (hd (dropWhile isWhiteSpace s))"
      by (rule hd_dropWhile)
    with a n show False by (metis hd_in_set)
  qed
  then show "\<forall>c \<in> set s. isWhiteSpace c"
    by (simp add: dropWhile_eq_Nil_conv)
next
  assume "\<forall>c \<in> set s. isWhiteSpace c"
  then show "trim s = []"
    by (auto simp: trim_def dest: set_dropWhileD)
qed

lemma pipe_not_whitespace: "\<not> isWhiteSpace CHR ''|''"
  by (simp add: isWhiteSpace_def)

lemma pipe_not_blank: "CHR ''|'' \<in> set s \<Longrightarrow> trim s \<noteq> []"
  using pipe_not_whitespace by (auto simp: trim_eq_Nil)

lemma extractLoop_outside:
  "\<forall>l \<in> set ls. \<not> includes_str l headerMarker \<Longrightarrow>
   extractLoop (ls @ rest) False prompts = extractLoop rest False prompts"
  by (induction ls) (auto simp: Let_def)

lemma extractLoop_header:
  "includes_str h headerMarker \<Longrightarrow> extractLoop (h # rest) b prompts = extractLoop rest True prompts"
  by simp

lemma extractLoop_delimiters:
  "\<forall>l \<in> set ds. delimiterRow l \<Longrightarrow>
   extractLoop (ds @ rest) True [] = extractLoop rest True []"
  by (induction ds) (auto simp: Let_def delimiterRow_def rowPrompt_def)

lemma dataRow_pipe: "dataRow l \<Longrightarrow> CHR ''|'' \<in> set l"
  by (rule split_str_mem) (simp add: dataRow_def)

lemma extractLoop_dataRow:
  assumes "dataRow l"
  shows "extractLoop (l # rest) True prompts
         = extractLoop rest True (prompts @ [replaceBold (rowPrompt l)])"
proof -
  have p: "includes_str l ''|''" using dataRow_pipe [OF assms] by (simp add: includes_str_single)
  have t: "trim l \<noteq> []" using dataRow_pipe [OF assms] by (rule pipe_not_blank)
  from assms p t show ?thesis
    by (simp add: Let_def dataRow_def rowPrompt_def)
qed

lemma extractLoop_dataRows:
  "\<forall>l \<in> set rows. dataRow l \<Longrightarrow>
   extractLoop (rows @ rest) True prompts
   = extractLoop rest True (prompts @ map (\<lambda>l. replaceBold (rowPrompt l)) rows)"
proof (induction rows arbitrary: prompts)
  case Nil
  then show ?case by simp
next
  case (Cons l rows)
  then show ?case by (simp add: extractLoop_dataRow del: extractLoop.simps)
qed

lemma extractLoop_after:
  assumes "prompts \<noteq> []" "trim l = []" "\<forall>x \<in> set (l # ls). \<not> includes_str x headerMarker"
  shows "extractLoop (l # ls) True prompts = prompts"
proof -
  have "\<not> includes_str l ''|''"
    using assms(2) pipe_not_blank by (auto simp: includes_str_single)
  with assms have "extractLoop (l # ls) True prompts = extractLoop ls False prompts"
    by (simp add: Let_def)
  also have "\<dots> = extractLoop (ls @ []) False prompts" by simp
  also have "\<dots> = extractLoop [] False prompts"
    using assms(3) by (intro extractLoop_outside) simp
  finally show ?thesis by simp
qed

lemma replaceBold_keep: "b \<noteq> CHR ''*'' \<Longrightarrow> replaceBold (b # rest) = b # replaceBold rest"
  by (cases rest) auto

lemma startsWith_bold: "startsWith s ''**'' = (\<exists>r. s = CHR ''*'' # CHR ''*'' # r)"
  by (cases s; cases "tl s") auto

lemma replaceBold_no_bold: "\<not> includes_str (replaceBold s) ''**''"
proof (induction s rule: replaceBold.induct)
  case (1 a b rest)
  show ?case
  proof (cases "a = CHR ''*'' \<and> b = CHR ''*''")
    case True
    with 1 show ?thesis by simp
  next
    case False
    with 1 have ih: "\<not> includes_str (replaceBold (b # rest)) ''**''" by simp
    show ?thesis
    proof (cases "a = CHR ''*''")
      case True
      with False have "b \<noteq> CHR ''*''" by simp
      then show ?thesis using ih False by (simp add: replaceBold_keep)
    next
      case False
      then show ?thesis using ih by simp
    qed
  qed
qed simp_all


text \<open>
  Claim C2. Let the lines of the document be: any lines without the header marker, the
  header line, any number of delimiter rows, \<open>N \<ge> 1\<close> data rows, and then either nothing
  or a blank line followed by lines without the header marker. Then \<open>extractPrompts\<close>
  returns the prompts of the first \<open>min N 6\<close> data rows, in row order, each with its
  bold markers removed (no \<open>**\<close> is left in any of them).
\<close>

theorem extractPrompts_well_formed_table:
  assumes "split_str CHR 0x0A markdown = before @ [header] @ delimiters @ rows @ after"
    and "\<forall>l \<in> set before. \<not> includes_str l headerMarker"
    and "includes_str header headerMarker"
    and "\<forall>l \<in> set delimiters. delimiterRow l"
    and "\<forall>l \<in> set rows. dataRow l"
    and "rows \<noteq> []"
    and "after = [] \<or> (trim (hd after) = [] \<and> (\<forall>l \<in> set after. \<not> includes_str l headerMarker))"
  shows "extractPrompts markdown = take 6 (map (\<lambda>l. replaceBold (rowPrompt l)) rows)
         \<and> length (extractPrompts markdown) = min (length rows) 6
         \<and> (\<forall>p \<in> set (extractPrompts markdown). \<not> includes_str p ''**'')"
proof -
  let ?found = "map (\<lambda>l. replaceBold (rowPrompt l)) rows"
  have found: "?found \<noteq> []" using assms(6) by simp
  have tail: "extractLoop after True ?found = ?found"
  proof (cases after)
    case Nil
    then show ?thesis by simp
  next
    case (Cons l ls)
    with assms(7) have "trim l = []" "\<forall>x \<in> set (l # ls). \<not> includes_str x headerMarker"
      by auto
    with found show ?thesis unfolding Cons by (intro extractLoop_after)
  qed
  have "extractLoop (before @ [header] @ delimiters @ rows @ after) False []
        = extractLoop ([header] @ delimiters @ rows @ after) False []"
    using assms(2) by (rule extractLoop_outside)
  also have "\<dots> = extractLoop (delimiters @ rows @ after) True []"
    using assms(3) by (simp del: extractLoop.simps add: extractLoop_header)
  also have "\<dots> = extractLoop (rows @ after) True []"
    using assms(4) by (rule extractLoop_delimiters)
  also have "\<dots> = extractLoop after True ([] @ ?found)"
    using assms(5) by (rule extractLoop_dataRows)
  also have "\<dots> = ?found" using tail by simp
  finally have eq: "extractPrompts markdown = take 6 ?found"
    by (simp add: extractPrompts_def assms(1))
  have "\<forall>p \<in> set (take 6 ?found). \<not> includes_str p ''**''"
    by (auto dest!: in_set_takeD simp: replaceBold_no_bold)
  with eq show ?thesis by simp
qed

theorem extractPrompts_well_formed_table_witness:
  "dataRow ''| 1 | **Retro** sun |'' \<and> dataRow ''| 2 | [line art] |''
   \<and> extractPrompts
        (''Here is your kit'' @ [CHR 0x0A] @ ''| VARIATION | IMAGE PROMPT |'' @ [CHR 0x0A]
         @ ''| :--- | :--- |'' @ [CHR 0x0A] @ ''| 1 | **Retro** sun |'' @ [CHR 0x0A]
         @ ''| 2 | [line art] |'' @ [CHR 0x0A] @ [CHR 0x0A] @ ''---'')
      = [''Retro sun'', ''[line art]'']"
proof -
  let ?md = "''Here is your kit'' @ [CHR 0x0A] @ ''| VARIATION | IMAGE PROMPT |'' @ [CHR 0x0A]
         @ ''| :--- | :--- |'' @ [CHR 0x0A] @ ''| 1 | **Retro** sun |'' @ [CHR 0x0A]
         @ ''| 2 | [line art] |'' @ [CHR 0x0A] @ [CHR 0x0A] @ ''---''"
  have l: "split_str CHR 0x0A ?md
           = [''Here is your kit''] @ [''| VARIATION | IMAGE PROMPT |''] @ [''| :--- | :--- |'']
             @ [''| 1 | **Retro** sun |'', ''| 2 | [line art] |''] @ [[], ''---'']"
    by (simp add: split_str_def)
  have b: "\<forall>l \<in> set [''Here is your kit'']. \<not> includes_str l headerMarker"
    by (simp add: headerMarker_def)
  have h: "includes_str ''| VARIATION | IMAGE PROMPT |'' headerMarker"
    by (simp add: headerMarker_def)
  have d: "\<forall>l \<in> set [''| :--- | :--- |'']. delimiterRow l"
    by (simp add: delimiterRow_def rowPrompt_def headerMarker_def split_str_def trim_def
          isWhiteSpace_def)
  have r1: "dataRow ''| 1 | **Retro** sun |''"
    by (simp add: dataRow_def rowPrompt_def headerMarker_def split_str_def trim_def
          isWhiteSpace_def)
  have r2: "dataRow ''| 2 | [line art] |''"
    by (simp add: dataRow_def rowPrompt_def headerMarker_def split_str_def trim_def
          isWhiteSpace_def)
  have r: "\<forall>l \<in> set [''| 1 | **Retro** sun |'', ''| 2 | [line art] |'']. dataRow l"
    using r1 r2 by simp
  have n: "[''| 1 | **Retro** sun |'', ''| 2 | [line art] |''] \<noteq> []" by simp
  have a: "[[], ''---''] = [] \<or> (trim (hd [[], ''---'']) = []
           \<and> (\<forall>l \<in> set [[], ''---'']. \<not> includes_str l headerMarker))"
    by (simp add: trim_def headerMarker_def)
  have v1: "replaceBold (rowPrompt ''| 1 | **Retro** sun |'') = ''Retro sun''"
    by (simp add: rowPrompt_def split_str_def trim_def isWhiteSpace_def)
  have v2: "replaceBold (rowPrompt ''| 2 | [line art] |'') = ''[line art]''"
    by (simp add: rowPrompt_def split_str_def trim_def isWhiteSpace_def)
  from extractPrompts_well_formed_table [OF l b h d r n a]
  have "extractPrompts ?md = [''Retro sun'', ''[line art]'']"
    by (simp add: v1 v2)
  with r1 r2 show ?thesis by simp
qed

section \<open>The retry executor\<close>

declare withRetryLoop.simps [simp del]

lemma trace_emit [simp]: "trace (emit ev w) = trace w @ [ev]"
  by (simp add: emit_def)

lemma calls_emit [simp]: "calls (emit ev w) = calls w"
  by (simp add: emit_def)

lemma trace_sleep [simp]: "trace (sleep ms w) = trace w @ [Slept ms]"
  by (simp add: sleep_def)

lemma calls_sleep [simp]: "calls (sleep ms w) = calls w"
  by (simp add: sleep_def)

lemma trace_notifyCooldown [simp]: "trace (notifyCooldown msg w) = trace w @ [CooldownMessage msg]"
  by (simp add: notifyCooldown_def)

lemma calls_notifyCooldown [simp]: "calls (notifyCooldown msg w) = calls w"
  by (simp add: notifyCooldown_def)

lemma trace_notifyAsset [simp]: "trace (notifyAsset a w) = trace w @ [AssetReady a]"
  by (simp add: notifyAsset_def)

lemma calls_notifyAsset [simp]: "calls (notifyAsset a w) = calls w"
  by (simp add: notifyAsset_def)

lemma delays_Nil [simp]: "delays [] = []"
  by (simp add: delays_def)

lemma delays_Cons [simp]:
  "delays (ev # evs) = (case ev of Slept ms \<Rightarrow> [ms] | _ \<Rightarrow> []) @ delays evs"
  by (simp add: delays_def)

lemma delays_append [simp]: "delays (xs @ ys) = delays xs @ delays ys"
  by (simp add: delays_def)

lemma cooldownMessages_Nil [simp]: "cooldownMessages [] = []"
  by (simp add: cooldownMessages_def)

lemma cooldownMessages_Cons [simp]:
  "cooldownMessages (ev # evs)
   = (case ev of CooldownMessage msg \<Rightarrow> [msg] | _ \<Rightarrow> []) @ cooldownMessages evs"
  by (simp add: cooldownMessages_def)

lemma cooldownMessages_append [simp]:
  "cooldownMessages (xs @ ys) = cooldownMessages xs @ cooldownMessages ys"
  by (simp add: cooldownMessages_def)

lemma assetsReady_Nil [simp]: "assetsReady [] = []"
  by (simp add: assetsReady_def)

lemma assetsReady_Cons [simp]:
  "assetsReady (ev # evs) = (case ev of AssetReady a \<Rightarrow> [a] | _ \<Rightarrow> []) @ assetsReady evs"
  by (simp add: assetsReady_def)

lemma assetsReady_append [simp]: "assetsReady (xs @ ys) = assetsReady xs @ assetsReady ys"
  by (simp add: assetsReady_def)

lemma invocations_Nil [simp]: "invocations [] = 0"
  by (simp add: invocations_def)

lemma invocations_Cons [simp]:
  "invocations (ev # evs) = (if ev = Invoked then 1 else 0) + invocations evs"
  by (simp add: invocations_def)

lemma invocations_append [simp]: "invocations (xs @ ys) = invocations xs + invocations ys"
  by (simp add: invocations_def)

lemma schedule_Nil [simp]: "schedule [] = []"
  by (simp add: schedule_def)

lemma schedule_Cons [simp]:
  "schedule (ev # evs)
   = (case ev of Invoked \<Rightarrow> [ev] | Slept ms \<Rightarrow> [ev] | _ \<Rightarrow> []) @ schedule evs"
  by (cases ev) (simp_all add: schedule_def)

lemma schedule_append [simp]: "schedule (xs @ ys) = schedule xs @ schedule ys"
  by (simp add: schedule_def)

lemma calledRequests_Nil [simp]: "calledRequests [] = []"
  by (simp add: calledRequests_def)

lemma calledRequests_Cons [simp]:
  "calledRequests (ev # evs)
   = (case ev of RemoteCall req out \<Rightarrow> [req] | _ \<Rightarrow> []) @ calledRequests evs"
  by (simp add: calledRequests_def)

lemma calledRequests_append [simp]:
  "calledRequests (xs @ ys) = calledRequests xs @ calledRequests ys"
  by (simp add: calledRequests_def)

lemma callOutcomes_Nil [simp]: "callOutcomes [] = []"
  by (simp add: callOutcomes_def)

lemma callOutcomes_Cons [simp]:
  "callOutcomes (ev # evs)
   = (case ev of RemoteCall req out \<Rightarrow> [out] | _ \<Rightarrow> []) @ callOutcomes evs"
  by (simp add: callOutcomes_def)

lemma callOutcomes_append [simp]: "callOutcomes (xs @ ys) = callOutcomes xs @ callOutcomes ys"
  by (simp add: callOutcomes_def)

lemma withRetryLoop_exhausted:
  "\<not> int i < retries \<Longrightarrow>
   withRetryLoop fn retries onRetry i currentDelay w = (Inl maximumRetriesError, w)"
  by (subst withRetryLoop.simps) simp

lemma withRetryLoop_success:
  "int i < retries \<Longrightarrow> fn w = (Inr v, w1) \<Longrightarrow>
   withRetryLoop fn retries onRetry i currentDelay w = (Inr v, w1)"
  by (subst withRetryLoop.simps) simp

lemma withRetryLoop_throw:
  "int i < retries \<Longrightarrow> fn w = (Inl error, w1) \<Longrightarrow>
   \<not> (int i < retries - 1 \<and> (isQuotaError error \<or> status error = Some 500)) \<Longrightarrow>
   withRetryLoop fn retries onRetry i currentDelay w = (Inl error, w1)"
  by (subst withRetryLoop.simps) (auto simp add: Let_def)

lemma withRetryLoop_quota:
  "int i < retries - 1 \<Longrightarrow> fn w = (Inl error, w1) \<Longrightarrow> isQuotaError error \<Longrightarrow>
   withRetryLoop fn retries onRetry i currentDelay w =
   withRetryLoop fn retries onRetry (Suc i) (currentDelay * 2)
     (sleep 75000 (emit (ConsoleWarn (i + 1) 75000)
        (case onRetry of None \<Rightarrow> w1
         | Some callback \<Rightarrow> callback ''Rate limit hit. Cooling down for 75s...'' w1)))"
  by (subst withRetryLoop.simps) (simp add: Let_def)

lemma withRetryLoop_server:
  "int i < retries - 1 \<Longrightarrow> fn w = (Inl error, w1) \<Longrightarrow> isServerError error \<Longrightarrow>
   withRetryLoop fn retries onRetry i currentDelay w =
   withRetryLoop fn retries onRetry (Suc i) (currentDelay * 2)
     (sleep currentDelay (emit (ConsoleWarn (i + 1) currentDelay)
        (case onRetry of None \<Rightarrow> w1
         | Some callback \<Rightarrow> callback ''Server busy. Retrying...'' w1)))"
  by (subst withRetryLoop.simps) (simp add: Let_def isServerError_def)

lemma operation_apply:
  "operation outcomes w = (outcomes (calls w), emit Invoked (w\<lparr>calls := Suc (calls w)\<rparr>))"
  by (simp add: operation_def)

lemma quota_then_success:
  assumes "\<forall>j < n. \<exists>error. outcomes (calls w + j) = Inl error \<and> isQuotaError error"
    and "outcomes (calls w + n) = Inr v"
    and "int (i + n) < retries"
  shows "\<exists>w'. withRetryLoop (operation outcomes) retries (Some notifyCooldown) i currentDelay w
               = (Inr v, w')
           \<and> cooldownMessages (trace w')
             = cooldownMessages (trace w) @ replicate n ''Rate limit hit. Cooling down for 75s...''
           \<and> delays (trace w') = delays (trace w) @ replicate n 75000
           \<and> invocations (trace w') = invocations (trace w) + Suc n"
  using assms
proof (induction n arbitrary: i currentDelay w)
  case 0
  then have "withRetryLoop (operation outcomes) retries (Some notifyCooldown) i currentDelay w
             = (Inr v, emit Invoked (w\<lparr>calls := Suc (calls w)\<rparr>))"
    by (intro withRetryLoop_success) (simp_all add: operation_apply)
  then show ?case by simp
next
  case (Suc n)
  from Suc.prems(1) obtain error where e: "outcomes (calls w) = Inl error" "isQuotaError error"
    by force
  let ?w1 = "emit Invoked (w\<lparr>calls := Suc (calls w)\<rparr>)"
  let ?w4 = "sleep 75000 (emit (ConsoleWarn (i + 1) 75000)
               (notifyCooldown ''Rate limit hit. Cooling down for 75s...'' ?w1))"
  have op: "operation outcomes w = (Inl error, ?w1)"
    by (simp add: operation_apply e)
  have step: "withRetryLoop (operation outcomes) retries (Some notifyCooldown) i currentDelay w
              = withRetryLoop (operation outcomes) retries (Some notifyCooldown) (Suc i)
                  (currentDelay * 2) ?w4"
    using Suc.prems(3) e(2) op
      withRetryLoop_quota [where fn = "operation outcomes" and w = w and error = error
        and onRetry = "Some notifyCooldown" and i = i and retries = retries
        and currentDelay = currentDelay]
    by simp
  have c: "calls ?w4 = Suc (calls w)" by simp
  have h1: "\<forall>j < n. \<exists>error. outcomes (calls ?w4 + j) = Inl error \<and> isQuotaError error"
    using Suc.prems(1) by (auto simp: c)
  have h2: "outcomes (calls ?w4 + n) = Inr v" using Suc.prems(2) by (simp add: c)
  have h3: "int (Suc i + n) < retries" using Suc.prems(3) by simp
  from Suc.IH [OF h1 h2 h3, of "currentDelay * 2"] obtain w' where
    r: "withRetryLoop (operation outcomes) retries (Some notifyCooldown) (Suc i)
          (currentDelay * 2) ?w4 = (Inr v, w')"
    and m: "cooldownMessages (trace w')
            = cooldownMessages (trace ?w4) @ replicate n ''Rate limit hit. Cooling down for 75s...''"
    and d: "delays (trace w') = delays (trace ?w4) @ replicate n 75000"
    and k: "invocations (trace w') = invocations (trace ?w4) + Suc n"
    by blast
  have m4: "cooldownMessages (trace ?w4)
            = cooldownMessages (trace w) @ [''Rate limit hit. Cooling down for 75s...'']"
    by simp
  have d4: "delays (trace ?w4) = delays (trace w) @ [75000]"
    by simp
  have k4: "invocations (trace ?w4) = Suc (invocations (trace w))"
    by simp
  show ?case
    unfolding step r using m d k
    by (simp add: m4 d4 k4 replicate_app_Cons_same del: replicate_Suc)
       (simp add: replicate_append_same)
qed


lemma server_until_exhausted:
  assumes "\<forall>j \<le> n. \<exists>error. outcomes (calls w + j) = Inl error \<and> isServerError error"
    and "retries = int (i + n) + 1"
    and "onRetry = None \<or> onRetry = Some notifyCooldown"
  shows "\<exists>w'. withRetryLoop (operation outcomes) retries onRetry i currentDelay w
               = (outcomes (calls w + n), w')
           \<and> delays (trace w') = delays (trace w) @ map (\<lambda>j. currentDelay * 2 ^ j) [0..<n]
           \<and> invocations (trace w') = invocations (trace w) + Suc n
           \<and> schedule (trace w')
             = schedule (trace w)
               @ concat (map (\<lambda>j. [Invoked, Slept (currentDelay * 2 ^ j)]) [0..<n]) @ [Invoked]"
  using assms(1,2)
proof (induction n arbitrary: i currentDelay w)
  case 0
  then obtain error where e: "outcomes (calls w) = Inl error" "isServerError error"
    by force
  have "withRetryLoop (operation outcomes) retries onRetry i currentDelay w
        = (Inl error, emit Invoked (w\<lparr>calls := Suc (calls w)\<rparr>))"
    using 0(2) e by (intro withRetryLoop_throw) (simp_all add: operation_apply)
  then show ?case using e by simp
next
  case (Suc n)
  from Suc.prems(1) obtain error where e: "outcomes (calls w) = Inl error" "isServerError error"
    by force
  let ?w1 = "emit Invoked (w\<lparr>calls := Suc (calls w)\<rparr>)"
  let ?w4 = "sleep currentDelay (emit (ConsoleWarn (i + 1) currentDelay)
               (case onRetry of None \<Rightarrow> ?w1
                | Some callback \<Rightarrow> callback ''Server busy. Retrying...'' ?w1))"
  have op: "operation outcomes w = (Inl error, ?w1)"
    by (simp add: operation_apply e)
  have step: "withRetryLoop (operation outcomes) retries onRetry i currentDelay w
              = withRetryLoop (operation outcomes) retries onRetry (Suc i) (currentDelay * 2) ?w4"
    using Suc.prems(2) e(2) op
      withRetryLoop_server [where fn = "operation outcomes" and w = w and error = error
        and onRetry = onRetry and i = i and retries = retries and currentDelay = currentDelay]
    by simp
  have c: "calls ?w4 = Suc (calls w)" using assms(3) by auto
  have d4: "delays (trace ?w4) = delays (trace w) @ [currentDelay]" using assms(3) by auto
  have k4: "invocations (trace ?w4) = Suc (invocations (trace w))" using assms(3) by auto
  have s4: "schedule (trace ?w4) = schedule (trace w) @ [Invoked, Slept currentDelay]"
    using assms(3) by auto
  have h1: "\<forall>j \<le> n. \<exists>error. outcomes (calls ?w4 + j) = Inl error \<and> isServerError error"
  proof (intro allI impI)
    fix j assume "j \<le> n"
    then have "Suc j \<le> Suc n" by simp
    with Suc.prems(1) have "\<exists>error. outcomes (calls w + Suc j) = Inl error \<and> isServerError error"
      by blast
    then show "\<exists>error. outcomes (calls ?w4 + j) = Inl error \<and> isServerError error"
      unfolding c by simp
  qed
  have h2: "retries = int (Suc i + n) + 1" using Suc.prems(2) by simp
  from Suc.IH [OF h1 h2, of "currentDelay * 2"] obtain w' where
    r: "withRetryLoop (operation outcomes) retries onRetry (Suc i) (currentDelay * 2) ?w4
        = (outcomes (calls ?w4 + n), w')"
    and d: "delays (trace w') = delays (trace ?w4) @ map (\<lambda>j. currentDelay * 2 * 2 ^ j) [0..<n]"
    and k: "invocations (trace w') = invocations (trace ?w4) + Suc n"
    and s: "schedule (trace w')
            = schedule (trace ?w4)
              @ concat (map (\<lambda>j. [Invoked, Slept (currentDelay * 2 * 2 ^ j)]) [0..<n]) @ [Invoked]"
    by blast
  have m: "map (\<lambda>j. currentDelay * 2 ^ j) [0..<Suc n]
           = currentDelay # map (\<lambda>j. currentDelay * 2 * 2 ^ j) [0..<n]"
    by (simp add: map_upt_Suc mult.assoc del: upt_Suc)
  from r have r': "withRetryLoop (operation outcomes) retries onRetry (Suc i) (currentDelay * 2) ?w4
                   = (outcomes (calls w + Suc n), w')"
    unfolding c by simp
  from d have d': "delays (trace w') = delays (trace w) @ map (\<lambda>j. currentDelay * 2 ^ j) [0..<Suc n]"
    unfolding d4 m by simp
  from k have k': "invocations (trace w') = invocations (trace w) + Suc (Suc n)"
    unfolding k4 by simp
  have m2: "concat (map (\<lambda>j. [Invoked, Slept (currentDelay * 2 ^ j)]) [0..<Suc n])
            = [Invoked, Slept currentDelay]
              @ concat (map (\<lambda>j. [Invoked, Slept (currentDelay * 2 * 2 ^ j)]) [0..<n])"
    by (simp add: map_upt_Suc mult.assoc del: upt_Suc)
  from s have s': "schedule (trace w')
                   = schedule (trace w)
                     @ concat (map (\<lambda>j. [Invoked, Slept (currentDelay * 2 ^ j)]) [0..<Suc n])
                     @ [Invoked]"
    unfolding s4 m2 by simp
  show ?case
    unfolding step using r' d' k' s' by blast
qed

text \<open>
  Claim C3. When the operation fails with a quota signal on its attempts \<open>1, ..., k - 1\<close>
  and succeeds on attempt \<open>k \<le> maxAttempts\<close>, and a cooldown callback is given, the
  retry executor returns the value of the operation and invokes the callback exactly
  \<open>k - 1\<close> times (each time with the rate-limit message, after which it waits the fixed
  75 seconds); the operation is invoked \<open>k\<close> times.
\<close>

theorem withRetry_quota_then_success:
  assumes "1 \<le> k" and "int k \<le> retries"
    and "\<forall>j < k - 1. \<exists>error. outcomes j = Inl error \<and> isQuotaError error"
    and "outcomes (k - 1) = Inr v"
  shows "fst (withRetry (operation outcomes) retries initialDelay (Some notifyCooldown) initialWorld)
           = Inr v
         \<and> length (cooldownMessages (trace (snd
             (withRetry (operation outcomes) retries initialDelay (Some notifyCooldown)
                initialWorld)))) = k - 1
         \<and> cooldownMessages (trace (snd
             (withRetry (operation outcomes) retries initialDelay (Some notifyCooldown)
                initialWorld)))
           = replicate (k - 1) ''Rate limit hit. Cooling down for 75s...''
         \<and> delays (trace (snd
             (withRetry (operation outcomes) retries initialDelay (Some notifyCooldown)
                initialWorld))) = replicate (k - 1) 75000
         \<and> invocations (trace (snd
             (withRetry (operation outcomes) retries initialDelay (Some notifyCooldown)
                initialWorld))) = k"
proof -
  have h1: "\<forall>j < k - 1. \<exists>error. outcomes (calls initialWorld + j) = Inl error \<and> isQuotaError error"
    using assms(3) by (simp add: initialWorld_def)
  have h2: "outcomes (calls initialWorld + (k - 1)) = Inr v"
    using assms(4) by (simp add: initialWorld_def)
  have h3: "int (0 + (k - 1)) < retries" using assms(1,2) by simp
  from quota_then_success [OF h1 h2 h3, of initialDelay] obtain w' where
    "withRetryLoop (operation outcomes) retries (Some notifyCooldown) 0 initialDelay initialWorld
     = (Inr v, w')"
    "cooldownMessages (trace w')
     = cooldownMessages (trace initialWorld)
       @ replicate (k - 1) ''Rate limit hit. Cooling down for 75s...''"
    "delays (trace w') = delays (trace initialWorld) @ replicate (k - 1) 75000"
    "invocations (trace w') = invocations (trace initialWorld) + Suc (k - 1)"
    by blast
  then show ?thesis using assms(1) by (simp add: withRetry_def initialWorld_def)
qed

theorem withRetry_quota_then_success_witness:
  "fst (withRetry
          (operation (\<lambda>n. if n < 2 then Inl \<lparr>status = Some 429, message = ''Too Many Requests''\<rparr>
                          else Inr ''kit''))
          3 5000 (Some notifyCooldown) initialWorld) = Inr ''kit''
   \<and> length (cooldownMessages (trace (snd (withRetry
          (operation (\<lambda>n. if n < 2 then Inl \<lparr>status = Some 429, message = ''Too Many Requests''\<rparr>
                          else Inr ''kit''))
          3 5000 (Some notifyCooldown) initialWorld)))) = 2"
proof -
  let ?outcomes = "\<lambda>n::nat. if n < 2 then Inl \<lparr>status = Some 429, message = ''Too Many Requests''\<rparr>
                          else (Inr ''kit'' :: js_error + string)"
  have a: "1 \<le> (3::nat)" by simp
  have b: "int 3 \<le> 3" by simp
  have c: "\<forall>j < 3 - 1. \<exists>error. ?outcomes j = Inl error \<and> isQuotaError error"
    by (simp add: isQuotaError_def)
  have d: "?outcomes (3 - 1) = Inr ''kit''" by simp
  from withRetry_quota_then_success [OF a b c d, of 5000] show ?thesis by simp
qed

text \<open>
  Claim C6. When every attempt of the operation fails with a server signal (status 500,
  and no quota signal), the retry executor invokes the operation exactly \<open>maxAttempts\<close>
  times and then propagates a failure. Attempts and waits alternate: after the first
  attempt it waits \<open>initialDelay\<close> and makes the second, and after each later attempt but
  the last it waits twice the previous delay and makes the next; nothing is waited
  after the last attempt.
\<close>

theorem withRetry_server_backoff:
  assumes "\<forall>j < maxAttempts. \<exists>error. outcomes j = Inl error \<and> isServerError error"
    and "onRetry = None \<or> onRetry = Some notifyCooldown"
  shows "(\<exists>error. fst (withRetry (operation outcomes) (int maxAttempts) initialDelay onRetry
                        initialWorld) = Inl error)
         \<and> invocations (trace (snd (withRetry (operation outcomes) (int maxAttempts) initialDelay
                                     onRetry initialWorld))) = maxAttempts
         \<and> delays (trace (snd (withRetry (operation outcomes) (int maxAttempts) initialDelay
                                onRetry initialWorld)))
           = map (\<lambda>j. initialDelay * 2 ^ j) [0..<maxAttempts - 1]
         \<and> schedule (trace (snd (withRetry (operation outcomes) (int maxAttempts) initialDelay
                                  onRetry initialWorld)))
           = (if maxAttempts = 0 then []
              else concat (map (\<lambda>j. [Invoked, Slept (initialDelay * 2 ^ j)])
                             [0..<maxAttempts - 1]) @ [Invoked])"
proof (cases maxAttempts)
  case 0
  then show ?thesis
    by (simp add: withRetry_def withRetryLoop_exhausted initialWorld_def)
next
  case (Suc n)
  have h1: "\<forall>j \<le> n. \<exists>error. outcomes (calls initialWorld + j) = Inl error \<and> isServerError error"
    using assms(1) Suc by (simp add: initialWorld_def)
  have h2: "int maxAttempts = int (0 + n) + 1" using Suc by simp
  from server_until_exhausted [OF h1 h2 assms(2), of initialDelay] obtain w' where
    r: "withRetryLoop (operation outcomes) (int maxAttempts) onRetry 0 initialDelay initialWorld
        = (outcomes (calls initialWorld + n), w')"
    and d: "delays (trace w') = delays (trace initialWorld) @ map (\<lambda>j. initialDelay * 2 ^ j) [0..<n]"
    and k: "invocations (trace w') = invocations (trace initialWorld) + Suc n"
    and s: "schedule (trace w')
            = schedule (trace initialWorld)
              @ concat (map (\<lambda>j. [Invoked, Slept (initialDelay * 2 ^ j)]) [0..<n]) @ [Invoked]"
    by blast
  from h1 obtain error where "outcomes (calls initialWorld + n) = Inl error" by blast
  with r d k s Suc show ?thesis
    by (simp add: withRetry_def initialWorld_def)
qed

theorem withRetry_server_backoff_witness:
  "invocations (trace (snd (withRetry
       (operation (\<lambda>n. Inl \<lparr>status = Some 500, message = ''Internal error''\<rparr>
                      :: js_error + string))
       (int 4) 5000 None initialWorld))) = 4
   \<and> delays (trace (snd (withRetry
       (operation (\<lambda>n. Inl \<lparr>status = Some 500, message = ''Internal error''\<rparr>
                      :: js_error + string))
       (int 4) 5000 None initialWorld))) = [5000, 10000, 20000]
   \<and> schedule (trace (snd (withRetry
       (operation (\<lambda>n. Inl \<lparr>status = Some 500, message = ''Internal error''\<rparr>
                      :: js_error + string))
       (int 4) 5000 None initialWorld)))
     = [Invoked, Slept 5000, Invoked, Slept 10000, Invoked, Slept 20000, Invoked]"
proof -
  let ?outcomes = "\<lambda>n::nat. Inl \<lparr>status = Some 500, message = ''Internal error''\<rparr>
                     :: js_error + string"
  have a: "\<forall>j < 4. \<exists>error. ?outcomes j = Inl error \<and> isServerError error"
    by (simp add: isServerError_def isQuotaError_def)
  have b: "(None :: (string \<Rightarrow> world \<Rightarrow> world) option) = None \<or> None = Some notifyCooldown"
    by simp
  have m: "map (\<lambda>j. (5000::int) * 2 ^ j) [0..<4 - 1] = [5000, 10000, 20000]"
    by (simp add: upt_rec)
  have c: "(if (4::nat) = 0 then []
            else concat (map (\<lambda>j. [Invoked, Slept (5000 * 2 ^ j)]) [0..<4 - 1]) @ [Invoked])
           = [Invoked, Slept 5000, Invoked, Slept 10000, Invoked, Slept 20000, Invoked]"
    by (simp add: upt_rec)
  from withRetry_server_backoff [OF a b, of 5000] show ?thesis
    by (simp only: m c)
qed

text \<open>
  Claim C1 fails on the code. With three attempts and an operation that fails every time
  with a server signal, the failure the caller receives is the error of the last
  attempt, not the "Maximum retries reached" error: that one is thrown after the loop,
  which is reached only when no attempt is made at all.
\<close>

theorem withRetry_exhausted_rethrows:
  "fst (withRetry
         (operation (\<lambda>n. Inl \<lparr>status = Some 500, message = ''Internal error''\<rparr>
                        :: js_error + string))
         3 5000 None initialWorld)
     = Inl \<lparr>status = Some 500, message = ''Internal error''\<rparr>
   \<and> \<lparr>status = Some 500, message = ''Internal error''\<rparr> \<noteq> maximumRetriesError"
proof -
  let ?outcomes = "\<lambda>n::nat. Inl \<lparr>status = Some 500, message = ''Internal error''\<rparr>
                     :: js_error + string"
  have h1: "\<forall>j \<le> 2. \<exists>error. ?outcomes (calls initialWorld + j) = Inl error \<and> isServerError error"
    by (simp add: isServerError_def isQuotaError_def)
  have h2: "(3::int) = int (0 + 2) + 1" by simp
  have h3: "(None :: (string \<Rightarrow> world \<Rightarrow> world) option) = None \<or> None = Some notifyCooldown"
    by simp
  from server_until_exhausted [where w = initialWorld and currentDelay = 5000, OF h1 h2 h3]
  show ?thesis
    by (auto simp: withRetry_def maximumRetriesError_def)
qed

section \<open>The image editor and the image batch generator\<close>

declare editLoop.simps [simp del]
declare previewLoop.simps [simp del]
declare showNat.simps [simp del]

lemma interCallDelays_Nil [simp]: "interCallDelays [] = []"
  by (simp add: interCallDelays_def)

lemma interCallDelays_Cons [simp]:
  "interCallDelays (ev # evs)
   = (case ev of Slept ms \<Rightarrow> if ms = 45000 then [ms] else [] | _ \<Rightarrow> []) @ interCallDelays evs"
  by (cases ev) (simp_all add: interCallDelays_def)

lemma interCallDelays_append [simp]:
  "interCallDelays (xs @ ys) = interCallDelays xs @ interCallDelays ys"
  by (simp add: interCallDelays_def)

lemma withRetryLoop_last:
  "int i < retries \<Longrightarrow> \<not> int i < retries - 1 \<Longrightarrow>
   withRetryLoop fn retries onRetry i currentDelay w = fn w"
  by (subst withRetryLoop.simps) (auto split: prod.splits sum.splits)

lemma withRetry_two:
  "withRetry fn 2 initialDelay onRetry w =
     (case fn w of
        (Inr v, w1) \<Rightarrow> (Inr v, w1)
      | (Inl error, w1) \<Rightarrow>
          if isQuotaError error \<or> status error = Some 500 then
            fn (sleep (if isQuotaError error then 75000 else initialDelay)
                  (emit (ConsoleWarn 1 (if isQuotaError error then 75000 else initialDelay))
                     (case onRetry of
                        None \<Rightarrow> w1
                      | Some callback \<Rightarrow>
                          callback (if isQuotaError error
                                    then ''Rate limit hit. Cooling down for 75s...''
                                    else ''Server busy. Retrying...'') w1)))
          else (Inl error, w1))"
  unfolding withRetry_def
  by (subst withRetryLoop.simps)
     (auto simp: Let_def withRetryLoop_last split: prod.splits sum.splits)

lemma generateContent_apply:
  "generateContent remote req w
   = (remote (calls w) req, emit (RemoteCall req (remote (calls w) req)) (w\<lparr>calls := Suc (calls w)\<rparr>))"
  by (simp add: generateContent_def Let_def)

text \<open>One call under the two-attempt retry of the image functions: what it adds to the trace.\<close>

lemma attempt_trace:
  assumes "onRetry = None \<or> onRetry = Some notifyCooldown"
  shows "\<exists>evs. trace (snd (withRetry (generateContent remote req) 2 65000 onRetry w)) = trace w @ evs
           \<and> (calledRequests evs = [req] \<or> calledRequests evs = [req, req])
           \<and> assetsReady evs = []
           \<and> interCallDelays evs = []
           \<and> filter succeeded (callOutcomes evs)
             = (case fst (withRetry (generateContent remote req) 2 65000 onRetry w) of
                  Inl error \<Rightarrow> []
                | Inr response \<Rightarrow> [Inr response])"
proof (cases "remote (calls w) req")
  case (Inr r)
  then show ?thesis
    by (simp add: withRetry_two generateContent_apply succeeded_def)
next
  case (Inl e)
  show ?thesis
  proof (cases "isQuotaError e \<or> status e = Some 500")
    case False
    with Inl show ?thesis
      by (simp add: withRetry_two generateContent_apply succeeded_def)
  next
    case True
    with Inl assms show ?thesis
      by (cases "remote (Suc (calls w)) req")
         (auto simp: withRetry_two generateContent_apply succeeded_def)
  qed
qed


lemma editLoop_done: "\<not> i < 6 \<Longrightarrow> editLoop remote imageData instruction i results w = (results, w)"
  by (subst editLoop.simps) simp

lemma editLoop_success:
  "i < 6 \<Longrightarrow>
   withRetry (generateContent remote (editRequest imageData instruction i)) 2 65000 None w
     = (Inr response, w1) \<Longrightarrow>
   editLoop remote imageData instruction i results w
   = editLoop remote imageData instruction (Suc i)
       (case responseImage response of
          None \<Rightarrow> results
        | Some d \<Rightarrow> results @ [\<lparr>url = dataUrl d, prompt = instruction\<rparr>])
       (if i < 5 then sleep 45000 w1 else w1)"
  by (subst editLoop.simps) (simp add: Let_def)

lemma editLoop_failure:
  "i < 6 \<Longrightarrow>
   withRetry (generateContent remote (editRequest imageData instruction i)) 2 65000 None w
     = (Inl err, w1) \<Longrightarrow>
   editLoop remote imageData instruction i results w
   = editLoop remote imageData instruction (Suc i) results
       (emit (ConsoleError ''Edit failed'' err) w1)"
  by (subst editLoop.simps) simp

lemma showNat_digit: "n < 10 \<Longrightarrow> showNat n = [char_of (48 + n)]"
  by (subst showNat.simps) simp

lemma editRequest_next:
  assumes "Suc i < 6"
  shows "editRequest imageData instruction i \<noteq> editRequest imageData instruction (Suc i)"
proof
  assume "editRequest imageData instruction i = editRequest imageData instruction (Suc i)"
  then have "showNat (i + 1) = showNat (Suc i + 1)"
    by (simp add: editRequest_def)
  moreover have "showNat (i + 1) = [char_of (48 + (i + 1))]"
    using assms by (intro showNat_digit) simp
  moreover have "showNat (Suc i + 1) = [char_of (48 + (Suc i + 1))]"
    using assms by (intro showNat_digit) simp
  ultimately have "(48 + (i + 1)) mod 256 = (48 + (Suc i + 1)) mod 256"
    by simp
  with assms show False by simp
qed

lemma remdups_adj_block:
  assumes "xs = [x] \<or> xs = [x, x]" and "ys = [] \<or> hd ys \<noteq> x"
  shows "remdups_adj (xs @ ys) = x # remdups_adj ys"
  using assms by (cases ys) auto

lemma filter_producedImage:
  "filter producedImage outs = filter producedImage (filter succeeded outs)"
proof -
  have "\<And>out. producedImage out \<Longrightarrow> succeeded out"
    by (simp add: producedImage_def succeeded_def split: sum.splits)
  then show ?thesis
    by (induction outs) auto
qed

lemma editLoop_trace:
  assumes "n = 6 - i" and "i \<le> 6"
  shows "\<exists>evs k. trace (snd (editLoop remote imageData instruction i results w)) = trace w @ evs
           \<and> (\<forall>j. k j = 1 \<or> k j = (2::nat))
           \<and> calledRequests evs
             = concat (map (\<lambda>j. replicate (k j) (editRequest imageData instruction j)) [i..<6])
           \<and> remdups_adj (calledRequests evs) = map (editRequest imageData instruction) [i..<6]
           \<and> length (fst (editLoop remote imageData instruction i results w))
             = length results + length (filter producedImage (callOutcomes evs))
           \<and> length (filter producedImage (callOutcomes evs)) \<le> 6 - i
           \<and> length (filter succeeded (callOutcomes evs)) \<le> 6 - i"
  using assms
proof (induction n arbitrary: i results w)
  case 0
  then have "\<not> i < 6" by simp
  then show ?case using 0
    by (intro exI [of _ "[]"] exI [of _ "\<lambda>j. 1"]) (simp add: editLoop_done)
next
  case (Suc n)
  then have i: "i < 6" by simp
  let ?R = "editRequest imageData instruction"
  let ?attempt = "withRetry (generateContent remote (?R i)) 2 65000 None w"
  obtain evs where evs: "trace (snd ?attempt) = trace w @ evs"
      "calledRequests evs = [?R i] \<or> calledRequests evs = [?R i, ?R i]"
      "filter succeeded (callOutcomes evs)
       = (case fst ?attempt of Inl error \<Rightarrow> [] | Inr response \<Rightarrow> [Inr response])"
    using attempt_trace [of None remote "?R i" w] by auto
  obtain ki :: nat where ki: "ki = 1 \<or> ki = 2" "calledRequests evs = replicate ki (?R i)"
  proof (cases "calledRequests evs = [?R i]")
    case True
    then show ?thesis by (intro that [of 1]) simp_all
  next
    case False
    with evs(2) have "calledRequests evs = replicate 2 (?R i)"
      by (simp add: numeral_2_eq_2)
    then show ?thesis by (intro that [of 2]) simp_all
  qed
  have s1: "length (filter succeeded (callOutcomes evs)) \<le> 1"
    unfolding evs(3) by (simp split: sum.splits)
  obtain res w1 where a: "?attempt = (res, w1)" by (cases ?attempt)
  have n: "n = 6 - Suc i" "Suc i \<le> 6" using Suc.prems by simp_all
  have u: "[i..<6] = i # [Suc i..<6]" using i by (simp add: upt_rec)
  obtain results1 w2 mid where
    step: "editLoop remote imageData instruction i results w
           = editLoop remote imageData instruction (Suc i) results1 w2"
    and t: "trace w2 = trace w @ evs @ mid"
    and m: "calledRequests mid = []" "callOutcomes mid = []"
    and l1: "length results1 = length results + length (filter producedImage (callOutcomes evs))"
    and p1: "length (filter producedImage (callOutcomes evs)) \<le> 1"
  proof (cases res)
    case (Inr response)
    let ?results1 = "case responseImage response of
                       None \<Rightarrow> results
                     | Some d \<Rightarrow> results @ [\<lparr>url = dataUrl d, prompt = instruction\<rparr>]"
    let ?w2 = "if i < 5 then sleep 45000 w1 else w1"
    let ?mid = "if i < 5 then [Slept 45000] else []"
    have s: "editLoop remote imageData instruction i results w
             = editLoop remote imageData instruction (Suc i) ?results1 ?w2"
      using i a Inr by (intro editLoop_success) simp_all
    have t: "trace ?w2 = trace w @ evs @ ?mid" using evs(1) a by simp
    have m: "calledRequests ?mid = []" "callOutcomes ?mid = []" by simp_all
    have p: "filter producedImage (callOutcomes evs)
             = (case responseImage response of None \<Rightarrow> [] | Some d \<Rightarrow> [Inr response])"
      using evs(3) a Inr
      by (subst filter_producedImage) (simp add: producedImage_def split: option.splits)
    have l: "length ?results1 = length results + length (filter producedImage (callOutcomes evs))"
      by (simp add: p split: option.splits)
    have q: "length (filter producedImage (callOutcomes evs)) \<le> 1"
      by (simp add: p split: option.splits)
    from that [OF s t m l q] show thesis .
  next
    case (Inl err)
    let ?w2 = "emit (ConsoleError ''Edit failed'' err) w1"
    let ?mid = "[ConsoleError ''Edit failed'' err]"
    have s: "editLoop remote imageData instruction i results w
             = editLoop remote imageData instruction (Suc i) results ?w2"
      using i a Inl by (intro editLoop_failure) simp_all
    have t: "trace ?w2 = trace w @ evs @ ?mid" using evs(1) a by simp
    have m: "calledRequests ?mid = []" "callOutcomes ?mid = []" by simp_all
    have p: "filter producedImage (callOutcomes evs) = []"
      using evs(3) a Inl by (subst filter_producedImage) simp
    have l: "length results = length results + length (filter producedImage (callOutcomes evs))"
      by (simp add: p)
    have q: "length (filter producedImage (callOutcomes evs)) \<le> 1"
      by (simp add: p)
    from that [OF s t m l q] show thesis .
  qed
  from Suc.IH [OF n, of results1 w2] obtain evs' k' where evs':
      "trace (snd (editLoop remote imageData instruction (Suc i) results1 w2)) = trace w2 @ evs'"
      "\<forall>j. k' j = 1 \<or> k' j = (2::nat)"
      "calledRequests evs' = concat (map (\<lambda>j. replicate (k' j) (?R j)) [Suc i..<6])"
      "remdups_adj (calledRequests evs') = map ?R [Suc i..<6]"
      "length (fst (editLoop remote imageData instruction (Suc i) results1 w2))
       = length results1 + length (filter producedImage (callOutcomes evs'))"
      "length (filter producedImage (callOutcomes evs')) \<le> 6 - Suc i"
      "length (filter succeeded (callOutcomes evs')) \<le> 6 - Suc i"
    by blast
  have hd: "calledRequests evs' = [] \<or> hd (calledRequests evs') \<noteq> ?R i"
  proof (cases "Suc i < 6")
    case True
    then have "remdups_adj (calledRequests evs') = ?R (Suc i) # map ?R [Suc (Suc i)..<6]"
      using evs'(4) by (simp add: upt_rec)
    then have "hd (remdups_adj (calledRequests evs')) = ?R (Suc i)"
      by simp
    then show ?thesis using editRequest_next [OF True, of imageData instruction] by auto
  next
    case False
    then show ?thesis using evs'(4) by simp
  qed
  define k where "k = k'(i := ki)"
  have k1: "\<forall>j. k j = 1 \<or> k j = 2" using ki(1) evs'(2) by (simp add: k_def)
  have k2: "map (\<lambda>j. replicate (k j) (?R j)) [Suc i..<6]
            = map (\<lambda>j. replicate (k' j) (?R j)) [Suc i..<6]"
    by (rule map_cong) (auto simp: k_def)
  have k3: "k i = ki" by (simp add: k_def)
  have c: "calledRequests (evs @ mid @ evs')
           = concat (map (\<lambda>j. replicate (k j) (?R j)) [i..<6])"
    unfolding u by (simp add: k2 k3 ki(2) evs'(3) m)
  have r: "remdups_adj (calledRequests (evs @ mid @ evs')) = map ?R [i..<6]"
    using remdups_adj_block [OF evs(2) hd] evs'(4) unfolding u by (simp add: m)
  have l: "length (fst (editLoop remote imageData instruction (Suc i) results1 w2))
           = length results + length (filter producedImage (callOutcomes (evs @ mid @ evs')))"
    using evs'(5) l1 by (simp add: m)
  have p: "length (filter producedImage (callOutcomes (evs @ mid @ evs'))) \<le> 6 - i"
    using evs'(6) p1 i by (simp add: m)
  have q: "length (filter succeeded (callOutcomes (evs @ mid @ evs'))) \<le> 6 - i"
    using evs'(7) s1 i by (simp add: m)
  have tr: "trace (snd (editLoop remote imageData instruction (Suc i) results1 w2))
            = trace w @ evs @ mid @ evs'"
    using evs'(1) t by simp
  show ?case
    unfolding step using tr k1 c r l p q
    by (intro exI [of _ "evs @ mid @ evs'"] exI [of _ k]) simp
qed

text \<open>
  Claim C7, amended. Whatever the remote service answers, \<open>editImageWithGemini\<close> makes
  exactly six edit calls, one for each of the variations 1 to 6 in this order: the
  remote calls of a run are six blocks, the block of a variation holding its request
  once, or twice when the retry executor tries again, and a failed call does not stop
  the calls after it. At most six remote calls succeed, and the number of assets
  returned is the number of remote calls that returned a response with an inline-image
  part, which is at most six.
\<close>

theorem editImageWithGemini_six_variations:
  "\<exists>k. (\<forall>j. k j = 1 \<or> k j = (2::nat))
      \<and> calledRequests (trace (snd (editImageWithGemini remote imageData instruction initialWorld)))
        = concat (map (\<lambda>j. replicate (k j) (editRequest imageData instruction j)) [0..<6])
      \<and> remdups_adj (calledRequests (trace (snd
           (editImageWithGemini remote imageData instruction initialWorld))))
        = map (editRequest imageData instruction) [0..<6]
      \<and> length (fst (editImageWithGemini remote imageData instruction initialWorld))
        = length (filter producedImage (callOutcomes (trace (snd
            (editImageWithGemini remote imageData instruction initialWorld)))))
      \<and> length (fst (editImageWithGemini remote imageData instruction initialWorld)) \<le> 6
      \<and> length (filter succeeded (callOutcomes (trace (snd
            (editImageWithGemini remote imageData instruction initialWorld))))) \<le> 6"
proof -
  have "(6::nat) = 6 - 0" "(0::nat) \<le> 6" by simp_all
  from editLoop_trace [OF this, of remote imageData instruction "[]" initialWorld]
  obtain evs k where
    "trace (snd (editLoop remote imageData instruction 0 [] initialWorld))
     = trace initialWorld @ evs"
    "\<forall>j. k j = 1 \<or> k j = (2::nat)"
    "calledRequests evs
     = concat (map (\<lambda>j. replicate (k j) (editRequest imageData instruction j)) [0..<6])"
    "remdups_adj (calledRequests evs) = map (editRequest imageData instruction) [0..<6]"
    "length (fst (editLoop remote imageData instruction 0 [] initialWorld))
     = length ([] :: GeneratedAsset list) + length (filter producedImage (callOutcomes evs))"
    "length (filter producedImage (callOutcomes evs)) \<le> 6 - 0"
    "length (filter succeeded (callOutcomes evs)) \<le> 6 - 0"
    by blast
  then show ?thesis
    by (intro exI [of _ k]) (simp add: editImageWithGemini_def initialWorld_def)
qed

theorem editImageWithGemini_six_variations_witness:
  "\<exists>k. (\<forall>j. k j = 1 \<or> k j = (2::nat))
      \<and> calledRequests (trace (snd (editImageWithGemini secondPromptFails
           ''data:image/png;base64,AAAA'' ''make it blue'' initialWorld)))
        = concat (map (\<lambda>j. replicate (k j)
                     (editRequest ''data:image/png;base64,AAAA'' ''make it blue'' j)) [0..<6])
      \<and> remdups_adj (calledRequests (trace (snd (editImageWithGemini secondPromptFails
           ''data:image/png;base64,AAAA'' ''make it blue'' initialWorld))))
        = map (editRequest ''data:image/png;base64,AAAA'' ''make it blue'') [0..<6]
      \<and> length (fst (editImageWithGemini secondPromptFails ''data:image/png;base64,AAAA''
           ''make it blue'' initialWorld))
        = length (filter producedImage (callOutcomes (trace (snd (editImageWithGemini
            secondPromptFails ''data:image/png;base64,AAAA'' ''make it blue'' initialWorld)))))
      \<and> length (fst (editImageWithGemini secondPromptFails ''data:image/png;base64,AAAA''
           ''make it blue'' initialWorld)) \<le> 6
      \<and> length (filter succeeded (callOutcomes (trace (snd (editImageWithGemini
            secondPromptFails ''data:image/png;base64,AAAA'' ''make it blue'' initialWorld)))))
        \<le> 6"
  by (rule editImageWithGemini_six_variations)

text \<open>
  Claim C7 as stated fails: a service that answers every call with a response that has
  no inline-image part makes six calls succeed, and no asset is returned.
\<close>

theorem editImageWithGemini_length_counterexample:
  "length (fst (editImageWithGemini imagelessRemote ''data:image/png;base64,AAAA''
                  ''make it blue'' initialWorld))
   \<noteq> length (filter succeeded (callOutcomes (trace (snd
         (editImageWithGemini imagelessRemote ''data:image/png;base64,AAAA''
            ''make it blue'' initialWorld)))))"
  by (simp add: editImageWithGemini_def editLoop.simps withRetry_two generateContent_apply
        imagelessRemote_def responseImage_def succeeded_def initialWorld_def)

text \<open>
  Claim C5 fails on the code. The \<open>sleep(45000)\<close> stands inside the \<open>try\<close> block, after
  the call, so a call that fails skips it: with a service that rejects every call, six
  calls are made and no inter-call delay elapses.
\<close>

theorem editImageWithGemini_no_delay_after_failure:
  "interCallDelays (trace (snd (editImageWithGemini rejectingRemote
      ''data:image/png;base64,AAAA'' ''make it blue'' initialWorld))) = []
   \<and> length (calledRequests (trace (snd (editImageWithGemini rejectingRemote
      ''data:image/png;base64,AAAA'' ''make it blue'' initialWorld)))) = 6"
  by (simp add: editImageWithGemini_def editLoop.simps withRetry_two generateContent_apply
        rejectingRemote_def isQuotaError_def initialWorld_def)


lemma editImageWithGemini_five_delays:
  "interCallDelays (trace (snd (editImageWithGemini imagelessRemote
      ''data:image/png;base64,AAAA'' ''make it blue'' initialWorld))) = replicate 5 45000"
  by (simp add: editImageWithGemini_def editLoop.simps withRetry_two generateContent_apply
        imagelessRemote_def responseImage_def initialWorld_def numeral_eq_Suc)

lemma previewLoop_done:
  "\<not> i < length prompts \<Longrightarrow>
   previewLoop remote prompts options onAssetReady onCooldownStart i results w = (results, w)"
  by (subst previewLoop.simps) simp

text \<open>The pause after the \<open>try ... catch\<close> statement of iteration \<open>i\<close>.\<close>

lemma previewLoop_image:
  "i < length prompts \<Longrightarrow>
   withRetry (generateContent remote (previewRequest options (prompts ! i))) 2 65000
     onCooldownStart w = (Inr response, w1) \<Longrightarrow>
   responseImage response = Some d \<Longrightarrow>
   previewLoop remote prompts options (Some notifyAsset) onCooldownStart i results w
   = previewLoop remote prompts options (Some notifyAsset) onCooldownStart (Suc i)
       (results @ [\<lparr>url = dataUrl d, prompt = cleanPrompt (prompts ! i)\<rparr>])
       (if int i < int (length prompts) - 1
        then sleep 45000 (notifyAsset \<lparr>url = dataUrl d, prompt = cleanPrompt (prompts ! i)\<rparr> w1)
        else notifyAsset \<lparr>url = dataUrl d, prompt = cleanPrompt (prompts ! i)\<rparr> w1)"
  by (subst previewLoop.simps) (simp add: Let_def)

lemma previewLoop_no_image:
  "i < length prompts \<Longrightarrow>
   withRetry (generateContent remote (previewRequest options (prompts ! i))) 2 65000
     onCooldownStart w = (Inr response, w1) \<Longrightarrow>
   responseImage response = None \<Longrightarrow>
   previewLoop remote prompts options onAssetReady onCooldownStart i results w
   = previewLoop remote prompts options onAssetReady onCooldownStart (Suc i) results
       (if int i < int (length prompts) - 1 then sleep 45000 w1 else w1)"
  by (subst previewLoop.simps) (simp add: Let_def)

lemma previewLoop_failure:
  "i < length prompts \<Longrightarrow>
   withRetry (generateContent remote (previewRequest options (prompts ! i))) 2 65000
     onCooldownStart w = (Inl err, w1) \<Longrightarrow>
   previewLoop remote prompts options onAssetReady onCooldownStart i results w
   = previewLoop remote prompts options onAssetReady onCooldownStart (Suc i) results
       (if int i < int (length prompts) - 1
        then sleep 45000
               (emit (ConsoleError (''Skipping variation due to limit: '' @ prompts ! i) err) w1)
        else emit (ConsoleError (''Skipping variation due to limit: '' @ prompts ! i) err) w1)"
  by (subst previewLoop.simps) (simp add: Let_def)

lemma attempt_success:
  "remote (calls w) req = Inr response \<Longrightarrow>
   withRetry (generateContent remote req) 2 65000 onRetry w
   = (Inr response, emit (RemoteCall req (Inr response)) (w\<lparr>calls := Suc (calls w)\<rparr>))"
  by (simp add: withRetry_two generateContent_apply)

lemma attempt_failure:
  assumes "\<forall>n. \<exists>error. remote n req = Inl error"
    and "onRetry = None \<or> onRetry = Some notifyCooldown"
  shows "\<exists>error w1. withRetry (generateContent remote req) 2 65000 onRetry w = (Inl error, w1)
           \<and> assetsReady (trace w1) = assetsReady (trace w)"
proof -
  from assms(1) obtain e1 where e1: "remote (calls w) req = Inl e1" by blast
  from assms(1) obtain e2 where e2: "remote (Suc (calls w)) req = Inl e2" by blast
  from e1 e2 assms(2) show ?thesis
    by (auto simp: withRetry_two generateContent_apply)
qed

text \<open>
  Claim C4. With three prompts, a service that fails every call for the second prompt
  and answers every call for the first and the third with a response that carries an
  inline image: the batch returns the assets of the first and the third prompt, in
  that order, and \<open>onAssetReady\<close> is invoked exactly twice, with these two assets.
\<close>

theorem generatePreviewImages_skips_failed_prompt:
  assumes "\<forall>n. remote n (previewRequest options p1) = Inr response1"
    and "responseImage response1 = Some d1"
    and "\<forall>n. \<exists>error. remote n (previewRequest options p2) = Inl error"
    and "\<forall>n. remote n (previewRequest options p3) = Inr response3"
    and "responseImage response3 = Some d3"
  shows "fst (generatePreviewImages remote [p1, p2, p3] options (Some notifyAsset)
                (Some notifyCooldown) initialWorld)
           = [\<lparr>url = dataUrl d1, prompt = cleanPrompt p1\<rparr>,
              \<lparr>url = dataUrl d3, prompt = cleanPrompt p3\<rparr>]
         \<and> assetsReady (trace (snd (generatePreviewImages remote [p1, p2, p3] options
                (Some notifyAsset) (Some notifyCooldown) initialWorld)))
           = [\<lparr>url = dataUrl d1, prompt = cleanPrompt p1\<rparr>,
              \<lparr>url = dataUrl d3, prompt = cleanPrompt p3\<rparr>]
         \<and> length (assetsReady (trace (snd (generatePreviewImages remote [p1, p2, p3] options
                (Some notifyAsset) (Some notifyCooldown) initialWorld)))) = 2"
proof -
  let ?prompts = "[p1, p2, p3]"
  let ?loop = "previewLoop remote ?prompts options (Some notifyAsset) (Some notifyCooldown)"
  let ?a1 = "\<lparr>url = dataUrl d1, prompt = cleanPrompt p1\<rparr>"
  let ?a3 = "\<lparr>url = dataUrl d3, prompt = cleanPrompt p3\<rparr>"
  let ?w0 = initialWorld
  let ?w1 = "emit (RemoteCall (previewRequest options p1) (Inr response1))
               (?w0\<lparr>calls := Suc (calls ?w0)\<rparr>)"
  let ?w2 = "sleep 45000 (notifyAsset ?a1 ?w1)"
  have s1: "?loop 0 [] ?w0 = ?loop (Suc 0) [?a1] ?w2"
    using previewLoop_image [where i = 0 and prompts = ?prompts and results = "[]"
        and remote = remote and options = options and onCooldownStart = "Some notifyCooldown"
        and w = ?w0 and ?w1.0 = ?w1 and response = response1 and d = d1]
      attempt_success [where remote = remote and w = ?w0 and response = response1
        and req = "previewRequest options p1" and onRetry = "Some notifyCooldown"]
      assms(1,2)
    by simp
  obtain err w3 where f:
      "withRetry (generateContent remote (previewRequest options p2)) 2 65000
         (Some notifyCooldown) ?w2 = (Inl err, w3)"
      "assetsReady (trace w3) = assetsReady (trace ?w2)"
    using attempt_failure [where remote = remote and req = "previewRequest options p2"
        and onRetry = "Some notifyCooldown" and w = ?w2] assms(3)
    by blast
  let ?w4 = "sleep 45000 (emit (ConsoleError (''Skipping variation due to limit: '' @ p2) err) w3)"
  have s2: "?loop (Suc 0) [?a1] ?w2 = ?loop (Suc (Suc 0)) [?a1] ?w4"
    using previewLoop_failure [where i = "Suc 0" and prompts = ?prompts and results = "[?a1]"
        and remote = remote and options = options and onCooldownStart = "Some notifyCooldown"
        and onAssetReady = "Some notifyAsset" and w = ?w2 and ?w1.0 = w3 and err = err]
      f(1)
    by simp
  let ?w5 = "emit (RemoteCall (previewRequest options p3) (Inr response3))
               (?w4\<lparr>calls := Suc (calls ?w4)\<rparr>)"
  let ?w6 = "notifyAsset ?a3 ?w5"
  have s3: "?loop (Suc (Suc 0)) [?a1] ?w4 = ?loop (Suc (Suc (Suc 0))) [?a1, ?a3] ?w6"
    using previewLoop_image [where i = "Suc (Suc 0)" and prompts = ?prompts and results = "[?a1]"
        and remote = remote and options = options and onCooldownStart = "Some notifyCooldown"
        and w = ?w4 and ?w1.0 = ?w5 and response = response3 and d = d3]
      attempt_success [where remote = remote and w = ?w4 and response = response3
        and req = "previewRequest options p3" and onRetry = "Some notifyCooldown"]
      assms(4,5)
    by simp
  have s4: "?loop (Suc (Suc (Suc 0))) [?a1, ?a3] ?w6 = ([?a1, ?a3], ?w6)"
    by (intro previewLoop_done) simp
  have r: "generatePreviewImages remote ?prompts options (Some notifyAsset)
             (Some notifyCooldown) initialWorld = ([?a1, ?a3], ?w6)"
    unfolding generatePreviewImages_def s1 s2 s3 s4 ..
  have t: "assetsReady (trace ?w6) = [?a1, ?a3]"
    using f(2) by (simp add: initialWorld_def)
  show ?thesis unfolding r using t by simp
qed


theorem generatePreviewImages_skips_failed_prompt_witness:
  "fst (generatePreviewImages secondPromptFails [''one'', ''two'', ''three''] standardOptions
          (Some notifyAsset) (Some notifyCooldown) initialWorld)
     = [\<lparr>url = ''data:image/png;base64,AAAA'', prompt = ''one''\<rparr>,
        \<lparr>url = ''data:image/png;base64,AAAA'', prompt = ''three''\<rparr>]
   \<and> length (assetsReady (trace (snd (generatePreviewImages secondPromptFails
          [''one'', ''two'', ''three''] standardOptions (Some notifyAsset) (Some notifyCooldown)
          initialWorld)))) = 2"
proof -
  let ?image = "\<lparr>responseText = None,
                  candidateParts = Some [InlineData ''image/png'' (Some ''AAAA'')]\<rparr>"
  have c: "cleanPrompt ''one'' = ''one''" "cleanPrompt ''two'' = ''two''"
      "cleanPrompt ''three'' = ''three''"
    by (simp_all add: cleanPrompt_def trim_def replaceBrackets_def isWhiteSpace_def)
  have h1: "\<forall>n. secondPromptFails n (previewRequest standardOptions ''one'') = Inr ?image"
    by (simp add: secondPromptFails_def previewRequest_def c)
  have h2: "responseImage ?image = Some (Some ''AAAA'')"
    by (simp add: responseImage_def)
  have h3: "\<forall>n. \<exists>error. secondPromptFails n (previewRequest standardOptions ''two'') = Inl error"
    by (simp add: secondPromptFails_def previewRequest_def c)
  have h4: "\<forall>n. secondPromptFails n (previewRequest standardOptions ''three'') = Inr ?image"
    by (simp add: secondPromptFails_def previewRequest_def c)
  from generatePreviewImages_skips_failed_prompt [OF h1 h2 h3 h4 h2]
  show ?thesis by (simp add: c dataUrl_def)
qed

lemma length_concat_le:
  assumes "\<forall>x \<in> set xs. length (f x) \<le> 1"
  shows "length (concat (map f xs)) \<le> length xs"
  using assms by (induction xs) (auto simp: le_Suc_eq)

lemma length_concat_less:
  assumes "\<forall>x \<in> set xs. length (f x) \<le> 1" and "\<exists>x \<in> set xs. f x = []"
  shows "length (concat (map f xs)) < length xs"
  using assms
proof (induction xs)
  case Nil
  then show ?case by simp
next
  case (Cons x xs)
  have le: "length (concat (map f xs)) \<le> length xs"
    using Cons.prems(1) by (intro length_concat_le) simp
  show ?case
  proof (cases "f x = []")
    case True
    with le show ?thesis by simp
  next
    case False
    with Cons.prems(2) have "\<exists>y \<in> set xs. f y = []" by auto
    with Cons.IH Cons.prems(1) have "length (concat (map f xs)) < length xs" by simp
    moreover have "length (f x) \<le> 1" using Cons.prems(1) by simp
    ultimately show ?thesis by simp
  qed
qed

lemma length_assetFor: "length (assetFor p out) \<le> 1"
  by (simp add: assetFor_def split: sum.splits option.splits)

lemma assetFor_Nil: "succeeded out \<Longrightarrow> (assetFor p out = []) = (\<not> producedImage out)"
  by (auto simp: assetFor_def succeeded_def producedImage_def split: sum.splits option.splits)

lemma previewLoop_all_succeed:
  assumes "\<forall>j < length prompts. \<exists>r. remote j (previewRequest options (prompts ! j)) = Inr r"
    and "n = length prompts - i" and "i \<le> length prompts" and "calls w = i"
  shows "fst (previewLoop remote prompts options (Some notifyAsset) onCooldownStart i results w)
           = results @ concat (map (\<lambda>j. assetFor (prompts ! j)
                 (remote j (previewRequest options (prompts ! j)))) [i..<length prompts])
         \<and> assetsReady (trace (snd (previewLoop remote prompts options (Some notifyAsset)
                onCooldownStart i results w)))
           = assetsReady (trace w) @ concat (map (\<lambda>j. assetFor (prompts ! j)
                 (remote j (previewRequest options (prompts ! j)))) [i..<length prompts])
         \<and> callOutcomes (trace (snd (previewLoop remote prompts options (Some notifyAsset)
                onCooldownStart i results w)))
           = callOutcomes (trace w)
             @ map (\<lambda>j. remote j (previewRequest options (prompts ! j))) [i..<length prompts]"
  using assms(2-4)
proof (induction n arbitrary: i results w)
  case 0
  then show ?case by (simp add: previewLoop_done)
next
  case (Suc n)
  then have i: "i < length prompts" by simp
  let ?req = "previewRequest options (prompts ! i)"
  from assms(1) i obtain r where r: "remote i ?req = Inr r" by blast
  let ?w1 = "emit (RemoteCall ?req (Inr r)) (w\<lparr>calls := Suc (calls w)\<rparr>)"
  have a: "withRetry (generateContent remote ?req) 2 65000 onCooldownStart w = (Inr r, ?w1)"
    using r Suc.prems(3) by (intro attempt_success) simp
  have n: "n = length prompts - Suc i" "Suc i \<le> length prompts"
    using Suc.prems i by simp_all
  have u: "[i..<length prompts] = i # [Suc i..<length prompts]"
    using i by (simp add: upt_rec)
  show ?case
  proof (cases "responseImage r")
    case None
    define w2 where "w2 = (if int i < int (length prompts) - 1 then sleep 45000 ?w1 else ?w1)"
    have step: "previewLoop remote prompts options (Some notifyAsset) onCooldownStart i results w
                = previewLoop remote prompts options (Some notifyAsset) onCooldownStart (Suc i)
                    results w2"
      unfolding w2_def using i a None by (rule previewLoop_no_image)
    have c: "calls w2 = Suc i" using Suc.prems(3) by (simp add: w2_def)
    have t: "assetsReady (trace w2) = assetsReady (trace w)"
        "callOutcomes (trace w2) = callOutcomes (trace w) @ [Inr r]"
      by (simp_all add: w2_def)
    have f: "assetFor (prompts ! i) (Inr r) = []"
      using None by (simp add: assetFor_def)
    from Suc.IH [OF n c, of results] show ?thesis
      unfolding step u by (simp add: f r t)
  next
    case (Some d)
    let ?asset = "\<lparr>url = dataUrl d, prompt = cleanPrompt (prompts ! i)\<rparr>"
    define w2 where "w2 = (if int i < int (length prompts) - 1
               then sleep 45000 (notifyAsset ?asset ?w1) else notifyAsset ?asset ?w1)"
    have step: "previewLoop remote prompts options (Some notifyAsset) onCooldownStart i results w
                = previewLoop remote prompts options (Some notifyAsset) onCooldownStart (Suc i)
                    (results @ [?asset]) w2"
      unfolding w2_def using i a Some by (rule previewLoop_image)
    have c: "calls w2 = Suc i" using Suc.prems(3) by (simp add: w2_def)
    have t: "assetsReady (trace w2) = assetsReady (trace w) @ [?asset]"
        "callOutcomes (trace w2) = callOutcomes (trace w) @ [Inr r]"
      by (simp_all add: w2_def)
    have f: "assetFor (prompts ! i) (Inr r) = [?asset]"
      using Some by (simp add: assetFor_def)
    from Suc.IH [OF n c, of "results @ [?asset]"] show ?thesis
      unfolding step u by (simp add: f r t)
  qed
qed

text \<open>
  Claim C10. When no remote call fails, the call for the prompt at position \<open>j\<close> is call
  number \<open>j\<close> of the run. Each prompt then contributes its asset if the response to its
  call carries an inline image, and nothing otherwise; \<open>onAssetReady\<close> is invoked for
  exactly the returned assets; every prompt is called, in order, whatever the responses
  before it held; and as soon as one response carries no inline image the returned
  sequence is shorter than the prompt list.
\<close>

theorem generatePreviewImages_response_without_image:
  assumes "\<forall>j < length prompts. \<exists>r. remote j (previewRequest options (prompts ! j)) = Inr r"
  shows "fst (generatePreviewImages remote prompts options (Some notifyAsset) onCooldownStart
                initialWorld)
           = concat (map (\<lambda>j. assetFor (prompts ! j)
                 (remote j (previewRequest options (prompts ! j)))) [0..<length prompts])
         \<and> assetsReady (trace (snd (generatePreviewImages remote prompts options
                (Some notifyAsset) onCooldownStart initialWorld)))
           = fst (generatePreviewImages remote prompts options (Some notifyAsset) onCooldownStart
                initialWorld)
         \<and> callOutcomes (trace (snd (generatePreviewImages remote prompts options
                (Some notifyAsset) onCooldownStart initialWorld)))
           = map (\<lambda>j. remote j (previewRequest options (prompts ! j))) [0..<length prompts]
         \<and> ((\<exists>j < length prompts.
                \<not> producedImage (remote j (previewRequest options (prompts ! j))))
              \<longrightarrow> length (fst (generatePreviewImages remote prompts options (Some notifyAsset)
                     onCooldownStart initialWorld)) < length prompts)"
proof -
  let ?out = "\<lambda>j. remote j (previewRequest options (prompts ! j))"
  let ?f = "\<lambda>j. assetFor (prompts ! j) (?out j)"
  have m: "length prompts = length prompts - 0" "0 \<le> length prompts" "calls initialWorld = 0"
    by (simp_all add: initialWorld_def)
  note s = previewLoop_all_succeed [where remote = remote and prompts = prompts
      and options = options and results = "[]" and onCooldownStart = onCooldownStart
      and w = initialWorld and i = 0 and n = "length prompts", OF assms m]
  have shorter: "length (concat (map ?f [0..<length prompts])) < length prompts"
    if "\<exists>j < length prompts. \<not> producedImage (?out j)"
  proof -
    from that obtain j where j: "j < length prompts" "\<not> producedImage (?out j)" by blast
    from assms j(1) have "succeeded (?out j)" by (auto simp: succeeded_def)
    with j(2) have "?f j = []" by (simp add: assetFor_Nil)
    with j(1) have "\<exists>x \<in> set [0..<length prompts]. ?f x = []" by auto
    moreover have "\<forall>x \<in> set [0..<length prompts]. length (?f x) \<le> 1"
      by (intro ballI length_assetFor)
    ultimately have "length (concat (map ?f [0..<length prompts])) < length [0..<length prompts]"
      by (rule length_concat_less [rotated])
    then show ?thesis by simp
  qed
  from s shorter show ?thesis
    by (simp add: generatePreviewImages_def initialWorld_def)
qed

theorem generatePreviewImages_response_without_image_witness:
  "fst (generatePreviewImages imagelessRemote [''one'', ''two''] standardOptions (Some notifyAsset)
         (Some notifyCooldown) initialWorld) = []
   \<and> assetsReady (trace (snd (generatePreviewImages imagelessRemote [''one'', ''two'']
         standardOptions (Some notifyAsset) (Some notifyCooldown) initialWorld))) = []
   \<and> length (callOutcomes (trace (snd (generatePreviewImages imagelessRemote [''one'', ''two'']
         standardOptions (Some notifyAsset) (Some notifyCooldown) initialWorld)))) = 2
   \<and> length (fst (generatePreviewImages imagelessRemote [''one'', ''two''] standardOptions
         (Some notifyAsset) (Some notifyCooldown) initialWorld)) < length [''one'', ''two'']"
proof -
  have h: "\<forall>j < length [''one'', ''two''].
             \<exists>r. imagelessRemote j (previewRequest standardOptions ([''one'', ''two''] ! j)) = Inr r"
    by (simp add: imagelessRemote_def)
  have a: "assetFor p (imagelessRemote j req) = []" for p j req
    by (simp add: assetFor_def imagelessRemote_def responseImage_def)
  from generatePreviewImages_response_without_image [where remote = imagelessRemote
      and prompts = "[''one'', ''two'']" and options = standardOptions
      and onCooldownStart = "Some notifyCooldown", OF h]
  show ?thesis by (simp add: a)
qed

section \<open>The kit generator\<close>

lemma withRetryLoop_requests:
  assumes "n = nat (retries - int i)"
  shows "\<exists>k. calledRequests (trace (snd
                (withRetryLoop (generateContent remote req) retries None i currentDelay w)))
             = calledRequests (trace w) @ replicate k req
           \<and> (int i < retries \<longrightarrow> 0 < k)"
  using assms
proof (induction n arbitrary: i currentDelay w)
  case 0
  then have "\<not> int i < retries" by simp
  then show ?case
    by (intro exI [of _ 0]) (simp add: withRetryLoop_exhausted)
next
  case (Suc n)
  then have i: "int i < retries" by simp
  let ?w1 = "emit (RemoteCall req (remote (calls w) req)) (w\<lparr>calls := Suc (calls w)\<rparr>)"
  have one: "calledRequests (trace ?w1) = calledRequests (trace w) @ replicate 1 req"
    by simp
  show ?case
  proof (cases "remote (calls w) req")
    case (Inr v)
    then have "withRetryLoop (generateContent remote req) retries None i currentDelay w
               = (Inr v, ?w1)"
      using i by (intro withRetryLoop_success) (simp_all add: generateContent_apply)
    with one show ?thesis by (intro exI [of _ 1]) simp
  next
    case (Inl error)
    then have op: "generateContent remote req w = (Inl error, ?w1)"
      by (simp add: generateContent_apply)
    show ?thesis
    proof (cases "int i < retries - 1 \<and> (isQuotaError error \<or> status error = Some 500)")
      case False
      then have "withRetryLoop (generateContent remote req) retries None i currentDelay w
                 = (Inl error, ?w1)"
        using i op by (intro withRetryLoop_throw) simp_all
      with one show ?thesis by (intro exI [of _ 1]) simp
    next
      case True
      define waitTime where "waitTime = (if isQuotaError error then 75000 else currentDelay)"
      define w4 where "w4 = sleep waitTime (emit (ConsoleWarn (i + 1) waitTime) ?w1)"
      have step: "withRetryLoop (generateContent remote req) retries None i currentDelay w
                  = withRetryLoop (generateContent remote req) retries None (Suc i)
                      (currentDelay * 2) w4"
      proof (cases "isQuotaError error")
        case q: True
        then show ?thesis
          using True op withRetryLoop_quota [where fn = "generateContent remote req" and w = w
              and error = error and onRetry = None and i = i and retries = retries
              and currentDelay = currentDelay and ?w1.0 = ?w1]
          by (simp add: w4_def waitTime_def)
      next
        case q: False
        with True have "isServerError error" by (simp add: isServerError_def)
        then show ?thesis
          using True q op withRetryLoop_server [where fn = "generateContent remote req" and w = w
              and error = error and onRetry = None and i = i and retries = retries
              and currentDelay = currentDelay and ?w1.0 = ?w1]
          by (simp add: w4_def waitTime_def)
      qed
      have t: "calledRequests (trace w4) = calledRequests (trace w) @ [req]"
        by (simp add: w4_def)
      have n: "n = nat (retries - int (Suc i))" using Suc.prems by simp
      from Suc.IH [OF n, of "currentDelay * 2" w4] obtain k where
        "calledRequests (trace (snd (withRetryLoop (generateContent remote req) retries None
            (Suc i) (currentDelay * 2) w4))) = calledRequests (trace w4) @ replicate k req"
        by blast
      then show ?thesis
        unfolding step t
        by (intro exI [of _ "Suc k"]) (simp add: replicate_app_Cons_same)
    qed
  qed
qed

text \<open>
  Claim C8. When the remote call (under its retries) resolves with a response whose text
  is undefined or empty, \<open>generateKit\<close> returns the fixed fallback string instead of
  throwing; and whenever \<open>generateKit\<close> returns a document, the document is not empty.
\<close>

theorem generateKit_fallback:
  "(fst (withRetry (generateContent remote (kitRequest input productType options)) 3 5000 None w)
      = Inr response
    \<and> (responseText response = None \<or> responseText response = Some [])
    \<longrightarrow> fst (generateKit remote input productType options w) = Inr kitFallback)
   \<and> (fst (generateKit remote input productType options w) = Inr document \<longrightarrow> document \<noteq> [])"
proof -
  obtain res w1 where a:
    "withRetry (generateContent remote (kitRequest input productType options)) 3 5000 None w
     = (res, w1)"
    by (cases "withRetry (generateContent remote (kitRequest input productType options)) 3 5000
                 None w")
  show ?thesis
    by (cases res)
       (auto simp: generateKit_def a kitFallback_def split: option.splits if_splits)
qed

theorem generateKit_fallback_witness:
  "fst (generateKit (\<lambda>n req. Inr \<lparr>responseText = None, candidateParts = None\<rparr>) ''a fox''
          ''TSHIRT'' \<lparr>imageBase64 = None, thinkingMode = False, fastMode = False\<rparr> initialWorld)
     = Inr ''Error generating the kit content.''
   \<and> ''Error generating the kit content.'' \<noteq> []"
proof -
  let ?remote = "\<lambda>(n::nat) (req::request). Inr \<lparr>responseText = None, candidateParts = None\<rparr>
                   :: js_error + response"
  let ?options = "\<lparr>imageBase64 = None, thinkingMode = False, fastMode = False\<rparr>"
  have r: "fst (withRetry (generateContent ?remote (kitRequest ''a fox'' ''TSHIRT'' ?options))
                  3 5000 None initialWorld)
           = Inr \<lparr>responseText = None, candidateParts = None\<rparr>"
    unfolding withRetry_def
    by (subst withRetryLoop_success [where v = "\<lparr>responseText = None, candidateParts = None\<rparr>"])
       (simp_all add: generateContent_apply)
  have t: "responseText \<lparr>responseText = None, candidateParts = None\<rparr> = None
           \<or> responseText \<lparr>responseText = None, candidateParts = None\<rparr> = Some []"
    by simp
  note inst = generateKit_fallback [where remote = ?remote and input = "''a fox''"
      and productType = "''TSHIRT''" and options = ?options and w = initialWorld
      and response = "\<lparr>responseText = None, candidateParts = None\<rparr>"
      and document = kitFallback]
  from inst r t have k: "fst (generateKit ?remote ''a fox'' ''TSHIRT'' ?options initialWorld)
                        = Inr kitFallback"
    by blast
  with inst have "kitFallback \<noteq> []" by blast
  with k show ?thesis by (simp add: kitFallback_def)
qed

text \<open>
  Claim C9. When both \<open>thinkingMode\<close> and \<open>fastMode\<close> are set, the request of
  \<open>generateKit\<close> names the thinking model and carries the reasoning budget, and every
  remote call of the run (there is at least one) is made with this request: the
  fast-mode model is not used.
\<close>

theorem generateKit_thinking_precedence:
  assumes "thinkingMode options" and "fastMode options"
  shows "model (kitRequest input productType options) = ''gemini-3-pro-preview''
         \<and> thinkingBudget (config (kitRequest input productType options)) = Some 32768
         \<and> set (calledRequests (trace (snd
                (generateKit remote input productType options initialWorld))))
           = {kitRequest input productType options}
         \<and> model (kitRequest input productType options) \<noteq> ''gemini-flash-lite-latest''"
proof -
  let ?req = "kitRequest input productType options"
  let ?attempt = "withRetry (generateContent remote ?req) 3 5000 None initialWorld"
  have t: "trace (snd (generateKit remote input productType options initialWorld))
           = trace (snd ?attempt)"
    by (cases ?attempt; cases "fst ?attempt") (auto simp: generateKit_def)
  have "(3::nat) = nat (3 - int 0)" by simp
  from withRetryLoop_requests [OF this, of remote ?req 5000 initialWorld] obtain k where
    k: "calledRequests (trace (snd ?attempt)) = replicate k ?req" "0 < k"
    by (auto simp: withRetry_def initialWorld_def)
  have s: "set (calledRequests (trace (snd ?attempt))) = {?req}"
    using k by (cases k) auto
  have m: "model ?req = ''gemini-3-pro-preview''"
    using assms by (simp add: kitRequest_def kitModel_def)
  have b: "thinkingBudget (config ?req) = Some 32768"
    using assms by (simp add: kitRequest_def kitConfig_def)
  from m b s t show ?thesis by simp
qed

theorem generateKit_thinking_precedence_witness:
  "model (kitRequest ''a fox'' ''TSHIRT''
            \<lparr>imageBase64 = None, thinkingMode = True, fastMode = True\<rparr>) = ''gemini-3-pro-preview''
   \<and> thinkingBudget (config (kitRequest ''a fox'' ''TSHIRT''
            \<lparr>imageBase64 = None, thinkingMode = True, fastMode = True\<rparr>)) = Some 32768
   \<and> set (calledRequests (trace (snd (generateKit imagelessRemote ''a fox'' ''TSHIRT''
            \<lparr>imageBase64 = None, thinkingMode = True, fastMode = True\<rparr> initialWorld))))
     = {kitRequest ''a fox'' ''TSHIRT'' \<lparr>imageBase64 = None, thinkingMode = True, fastMode = True\<rparr>}"
proof -
  let ?options = "\<lparr>imageBase64 = None, thinkingMode = True, fastMode = True\<rparr>"
  have a: "thinkingMode ?options" by simp
  have b: "fastMode ?options" by simp
  from generateKit_thinking_precedence [OF a b, of "''a fox''" "''TSHIRT''" imagelessRemote]
  show ?thesis by blast
qed

end
